theory Spec2Isabelle
  imports Main "HOL-Library.Word" "HOL-Library.Monad_Syntax"
begin

unbundle bit_operations_syntax

section \<open>The C library as library.c uses it\<close>

text \<open>
  A C string is modelled by the list of its characters before the terminating NUL, an
  \<open>unsigned int\<close> by a 32-bit word.
\<close>

type_synonym uint = "32 word"

text \<open>\<open>isspace\<close> and \<open>isdigit\<close> of \<open>ctype.h\<close> in the C locale: space, and the
  five control characters from horizontal tab to carriage return.\<close>

definition isspace :: "char \<Rightarrow> bool" where
  "isspace c = (let n = (of_char c :: nat) in (9 \<le> n \<and> n \<le> 13) \<or> n = 32)"

definition isdigit :: "char \<Rightarrow> bool" where
  "isdigit c = (let n = (of_char c :: nat) in 48 \<le> n \<and> n \<le> 57)"

definition digit_val :: "char \<Rightarrow> nat" where
  "digit_val c = of_char c - 48"

primrec digits_val :: "nat \<Rightarrow> string \<Rightarrow> nat" where
  "digits_val acc [] = acc"
| "digits_val acc (c # cs) = digits_val (10 * acc + digit_val c) cs"

subsection \<open>sscanf\<close>

text \<open>
  The conversion \<open>%u\<close> skips white space, then reads an optional sign and the longest
  run of decimal digits, as \<open>strtoul\<close> in base 10 does; without a digit the conversion
  fails. What is stored for a value that does not fit \<open>unsigned int\<close> is undefined in
  ISO C; the model does what the C libraries of 64-bit systems do: the digits are converted
  as \<open>strtoul\<close> converts them to an \<open>unsigned long\<close> of 64 bits, which is
  \<open>ULONG_MAX\<close> for a value beyond it and the negated value after a minus sign, and the
  \<open>unsigned int\<close> gets the low 32 bits.
\<close>

definition store_uint :: "bool \<Rightarrow> nat \<Rightarrow> uint" where
  "store_uint neg n =
     (if 2 ^ 64 \<le> n then 4294967295 else if neg then - of_nat n else of_nat n)"

fun read_sign :: "string \<Rightarrow> bool \<times> string" where
  "read_sign [] = (False, [])"
| "read_sign (c # r) =
     (if c = CHR ''-'' then (True, r)
      else if c = CHR ''+'' then (False, r)
      else (False, c # r))"

definition conv_u :: "string \<Rightarrow> (uint \<times> string) option" where
  "conv_u s =
     (case read_sign (dropWhile isspace s) of
        (neg, s2) \<Rightarrow>
          (case takeWhile isdigit s2 of
             [] \<Rightarrow> None
           | d # ds \<Rightarrow>
               Some (store_uint neg (digits_val 0 (d # ds)), dropWhile isdigit s2)))"

text \<open>
  A format is a sequence of directives: the conversion \<open>%u\<close>, white space (which
  matches any amount of white space in the input, none included) and ordinary
  characters (each of which must be the next input character).
\<close>

datatype directive = Conv_u | White | Ordinary char

fun directives :: "string \<Rightarrow> directive list" where
  "directives (c # d # fs) =
     (if c = CHR ''%'' \<and> d = CHR ''u'' then Conv_u # directives fs
      else (if isspace c then White else Ordinary c) # directives (d # fs))"
| "directives [c] = [if isspace c then White else Ordinary c]"
| "directives [] = []"

text \<open>
  \<open>scan\<close> returns the values assigned, in order. It stops at the first directive that
  fails. The count \<open>sscanf\<close> returns is the number of assignments (or \<open>EOF\<close> when the
  input ended before the first one): it is \<open>n\<close>, for a positive \<open>n\<close>, exactly when
  \<open>n\<close> values were assigned.
\<close>

fun scan :: "directive list \<Rightarrow> string \<Rightarrow> uint list" where
  "scan [] s = []"
| "scan (Conv_u # fs) s =
     (case conv_u s of None \<Rightarrow> [] | Some (v, r) \<Rightarrow> v # scan fs r)"
| "scan (White # fs) s = scan fs (dropWhile isspace s)"
| "scan (Ordinary c # fs) s =
     (case s of [] \<Rightarrow> [] | x # r \<Rightarrow> if x = c then scan fs r else [])"

definition sscanf :: "string \<Rightarrow> string \<Rightarrow> uint list" where
  "sscanf s fmt = scan (directives fmt) s"

subsection \<open>snprintf and strftime\<close>

fun dec :: "nat \<Rightarrow> string" where
  "dec n =
     (if n < 10 then [''0123456789'' ! n]
      else dec (n div 10) @ [''0123456789'' ! (n mod 10)])"

declare dec.simps [simp del]

text \<open>\<open>%.Pu\<close>: the decimal digits of the value, at least \<open>P\<close> of them (zeros in front);
  \<open>%u\<close> is \<open>%.1u\<close>.\<close>

definition fmt_u :: "nat \<Rightarrow> nat \<Rightarrow> string" where
  "fmt_u prec n = replicate (prec - length (dec n)) (CHR ''0'') @ dec n"

text \<open>\<open>snprintf(buf, size, "%u-%.2u-%.2u", y, m, d)\<close>: at most \<open>size - 1\<close> characters
  are stored, the rest of the output is dropped.\<close>

definition snprintf_date :: "nat \<Rightarrow> uint \<Rightarrow> uint \<Rightarrow> uint \<Rightarrow> string" where
  "snprintf_date sz y m d =
     take (sz - 1)
       (fmt_u 1 (unat y) @ ''-'' @ fmt_u 2 (unat m) @ ''-'' @ fmt_u 2 (unat d))"

text \<open>The fields of \<open>struct tm\<close> that \<open>%F\<close> reads: years since 1900, months since
  January, day of the month.\<close>

record tm =
  tm_year :: int
  tm_mon :: int
  tm_mday :: int

definition dec_int :: "int \<Rightarrow> string" where
  "dec_int i = (if i < 0 then ''-'' @ dec (nat (- i)) else dec (nat i))"

text \<open>\<open>strftime(buf, 32, "%F", tm)\<close>, that is \<open>%Y-%m-%d\<close>. The result has at most 17
  characters for every \<open>int\<close> year, so it always fits the 32 bytes.\<close>

definition strftime_F :: "tm \<Rightarrow> string" where
  "strftime_F t =
     dec_int (1900 + tm_year t) @ ''-'' @ fmt_u 2 (nat (tm_mon t + 1)) @ ''-''
       @ fmt_u 2 (nat (tm_mday t))"

section \<open>library.c\<close>

subsection \<open>Data\<close>

text \<open>
  \<open>lowdown.h\<close> is not among the sources. The three output types, the fields of
  \<open>struct lowdown_opts\<close> that library.c reads and the two fields of
  \<open>struct lowdown_meta\<close> are taken from their uses in library.c. A pointer to options
  that may be \<open>NULL\<close> is an \<open>option\<close>.
\<close>

datatype lowdown_type = LOWDOWN_HTML | LOWDOWN_MAN | LOWDOWN_NROFF

record lowdown_opts =
  type :: lowdown_type
  feat :: uint
  oflags :: uint

record lowdown_meta =
  key :: string
  val :: string

text \<open>What the C standard leaves undefined is a result of its own.\<close>

datatype fault = Null_dereference | Out_of_bounds_read

text \<open>
  The state outside the functions: the two \<open>static char buf[32]\<close> of \<open>date2str\<close> and
  \<open>rcsdate2str\<close>, and the messages \<open>warnx\<close> has written to standard error. The
  pointer either function returns is the address of its own buffer.
\<close>

record world =
  date2str_buf :: string
  rcsdate2str_buf :: string
  stderr :: "string list"

datatype bufptr = Date2str_buf | Rcsdate2str_buf

definition deref :: "world \<Rightarrow> bufptr \<Rightarrow> string" where
  "deref w p = (case p of Date2str_buf \<Rightarrow> date2str_buf w | Rcsdate2str_buf \<Rightarrow> rcsdate2str_buf w)"

definition warnx :: "string \<Rightarrow> world \<Rightarrow> world" where
  "warnx msg w = w\<lparr>stderr := stderr w @ [msg]\<rparr>"

abbreviation dq :: char where "dq \<equiv> CHR 0x22"
abbreviation bs :: char where "bs \<equiv> CHR 0x5C"

subsection \<open>lowdown_errstr\<close>

text \<open>Modelled from the spec: the enumeration \<open>lowdown_err\<close> of \<open>lowdown.h\<close> has two
  error kinds, so \<open>LOWDOWN_ERR__MAX\<close>, the length of the table, is 2. An enumeration
  value is an \<open>int\<close>.\<close>

definition LOWDOWN_ERR__MAX :: int where
  "LOWDOWN_ERR__MAX = 2"

definition errs :: "string list" where
  "errs =
     [''space before link (CommonMark violation)'',
      ''bad character in metadata key (MultiMarkdown violation)'']"

text \<open>\<open>return(errs[err])\<close>: the index is not checked, and reading outside the table is
  undefined.\<close>

definition lowdown_errstr :: "int \<Rightarrow> fault + string" where
  "lowdown_errstr err =
     (if 0 \<le> err \<and> err < LOWDOWN_ERR__MAX then Inr (errs ! nat err)
      else Inl Out_of_bounds_read)"

subsection \<open>lowdown_buf and lowdown_file\<close>

text \<open>
  The renderers, the document parser, the smartypants passes and the buffer functions are
  in other files of the repository. They are parameters of the model: what
  \<open>hdoc_render\<close> appends to the empty buffer \<open>ob\<close> and stores as metadata, what
  \<open>hsmrt_html\<close> and \<open>hsmrt_nroff\<close> append to the empty buffer \<open>spb\<close>, and the bit
  \<open>LOWDOWN_SMARTY\<close> of \<open>lowdown.h\<close>. A renderer is the constructor that made it with
  its arguments, a document the arguments of \<open>hdoc_new\<close>.
\<close>

datatype hrend = Hrend_html uint int | Hrend_nroff uint bool

record hdoc =
  doc_renderer :: hrend
  doc_opts :: "lowdown_opts option"
  doc_feat :: uint
  doc_max_nesting :: nat
  doc_roff :: bool

record extern =
  hdoc_render :: "hdoc \<Rightarrow> string \<Rightarrow> string \<times> lowdown_meta list"
  hsmrt_html :: "string \<Rightarrow> string"
  hsmrt_nroff :: "string \<Rightarrow> string"
  LOWDOWN_SMARTY :: uint

definition DEF_MAX_NESTING :: nat where
  "DEF_MAX_NESTING = 16"

definition new_renderer :: "lowdown_opts option \<Rightarrow> hrend" where
  "new_renderer opts =
     (case opts of
        None \<Rightarrow> Hrend_html 0 0
      | Some os \<Rightarrow>
          if type os = LOWDOWN_HTML then Hrend_html (oflags os) 0
          else Hrend_nroff (oflags os) (type os = LOWDOWN_MAN))"

definition new_document :: "lowdown_opts option \<Rightarrow> hdoc" where
  "new_document opts =
     \<lparr>doc_renderer = new_renderer opts,
      doc_opts = opts,
      doc_feat = (case opts of None \<Rightarrow> 0 | Some os \<Rightarrow> feat os),
      doc_max_nesting = DEF_MAX_NESTING,
      doc_roff = (case opts of None \<Rightarrow> False | Some os \<Rightarrow> type os \<noteq> LOWDOWN_HTML)\<rparr>"

text \<open>The result is \<open>(*res, *m)\<close>; \<open>*rsz\<close> and \<open>*msz\<close> are the lengths of the two.\<close>

definition lowdown_buf ::
  "extern \<Rightarrow> lowdown_opts option \<Rightarrow> string \<Rightarrow> string \<times> lowdown_meta list" where
  "lowdown_buf x opts data =
     (case hdoc_render x (new_document opts) data of
        (ob, m) \<Rightarrow>
          (case opts of
             None \<Rightarrow> (ob, m)
           | Some os \<Rightarrow>
               if LOWDOWN_SMARTY x AND oflags os \<noteq> 0 then
                 (if type os = LOWDOWN_HTML then hsmrt_html x ob else hsmrt_nroff x ob, m)
               else (ob, m)))"

text \<open>Modelled from the spec: \<open>hbuf_putf\<close> of the buffer module drains the stream into the
  buffer and returns non-zero when reading failed. A stream is the bytes it delivers and
  whether reading it ends in an error.\<close>

record stream =
  bytes :: string
  read_error :: bool

definition hbuf_putf :: "string \<Rightarrow> stream \<Rightarrow> bool \<times> string" where
  "hbuf_putf ib fin = (read_error fin, ib @ bytes fin)"

text \<open>The \<open>int\<close> returned, and \<open>(*res, *m)\<close> when they have been assigned.\<close>

definition lowdown_file ::
  "extern \<Rightarrow> lowdown_opts option \<Rightarrow> stream \<Rightarrow> int \<times> (string \<times> lowdown_meta list) option" where
  "lowdown_file x opts fin =
     (case hbuf_putf [] fin of
        (failed, ib) \<Rightarrow>
          if failed then (0, None)
          else (1, Some (lowdown_buf x opts ib)))"

subsection \<open>date2str and rcsdate2str\<close>

text \<open>The argument is a pointer, \<open>None\<close> for \<open>NULL\<close>. The result is the pointer
  returned and the state the call leaves.\<close>

definition date2str :: "string option \<Rightarrow> world \<Rightarrow> bufptr option \<times> world" where
  "date2str v w =
     (case v of
        None \<Rightarrow> (None, w)
      | Some s \<Rightarrow>
          (case sscanf s ''%u/%u/%u'' of
             [y, m, d] \<Rightarrow>
               (Some Date2str_buf, w\<lparr>date2str_buf := snprintf_date 32 y m d\<rparr>)
           | _ \<Rightarrow>
               (case sscanf s ''%u-%u-%u'' of
                  [y, m, d] \<Rightarrow>
                    (Some Date2str_buf, w\<lparr>date2str_buf := snprintf_date 32 y m d\<rparr>)
                | _ \<Rightarrow> (None, warnx ''malformed ISO-8601 date'' w))))"

definition rcsdate2str :: "string option \<Rightarrow> world \<Rightarrow> bufptr option \<times> world" where
  "rcsdate2str v w =
     (case v of
        None \<Rightarrow> (None, w)
      | Some s \<Rightarrow>
          if length s < 7 then (None, warnx ''malformed RCS date'' w)
          else
            (case sscanf (drop 7 s) ''%u/%u/%u %u:%u:%u'' of
               [y, m, d, h, mi, sec] \<Rightarrow>
                 (Some Rcsdate2str_buf, w\<lparr>rcsdate2str_buf := snprintf_date 32 y m d\<rparr>)
             | _ \<Rightarrow> (None, warnx ''malformed RCS date'' w)))"

subsection \<open>serialise_roff\<close>

text \<open>The buffer \<open>op\<close> is the bytes appended to it so far. The \<open>for\<close> loop over the
  characters of \<open>v\<close>:\<close>

fun roff_loop :: "bool \<Rightarrow> string \<Rightarrow> string \<Rightarrow> string" where
  "roff_loop block op [] = op"
| "roff_loop block op (c # v) =
     roff_loop block
       (if c = bs then op @ [bs, CHR ''e'']
        else if \<not> block \<and> c = dq then op @ [bs, CHR ''('', CHR ''d'', CHR ''q'']
        else if isspace c then op @ '' ''
        else op @ [c])
       v"

definition serialise_roff :: "string \<Rightarrow> string \<Rightarrow> bool \<Rightarrow> string" where
  "serialise_roff op v block =
     (let v1 = dropWhile isspace v;
          op1 = (if block \<and> (case v1 of [] \<Rightarrow> False | c # _ \<Rightarrow> c = CHR ''.'')
                 then op @ [bs, CHR ''&''] else op);
          op2 = roff_loop block op1 v1
      in if block then op2 @ ''\<newline>'' else op2)"

subsection \<open>lowdown_standalone_open and lowdown_standalone_close\<close>

text \<open>The loop over the metadata, with the three variables \<open>title\<close>, \<open>author\<close> and
  \<open>date\<close>; \<open>author\<close> and \<open>date\<close> may be \<open>NULL\<close>.\<close>

fun meta_loop ::
  "lowdown_meta list \<Rightarrow> string \<times> string option \<times> bufptr option \<Rightarrow> world \<Rightarrow>
     (string \<times> string option \<times> bufptr option) \<times> world" where
  "meta_loop [] vars w = (vars, w)"
| "meta_loop (e # m) (title, author, date) w =
     (if key e = ''title'' then meta_loop m (val e, author, date) w
      else if key e = ''author'' then meta_loop m (title, Some (val e), date) w
      else if key e = ''rcsdate'' then
        (case rcsdate2str (Some (val e)) w of (p, w') \<Rightarrow> meta_loop m (title, author, p) w')
      else if key e = ''date'' then
        (case date2str (Some (val e)) w of (p, w') \<Rightarrow> meta_loop m (title, author, p) w')
      else meta_loop m (title, author, date) w)"

text \<open>
  The metadata loop from the initial values, then the date of today where \<open>date\<close> is
  still \<open>NULL\<close>. The broken-down local time \<open>localtime\<close> returns is a parameter. Nothing
  writes to the static buffers after the loop, so the string \<open>date\<close> points to is read
  here.
\<close>

definition open_vars ::
  "lowdown_meta list \<Rightarrow> tm \<Rightarrow> world \<Rightarrow> (string \<times> string option \<times> string) \<times> world" where
  "open_vars m now w =
     (case meta_loop m (''Untitled article'', None, None) w of
        ((title, author, date), w') \<Rightarrow>
          ((title, author,
            (case date of None \<Rightarrow> strftime_F now | Some p \<Rightarrow> deref w' p)), w'))"

text \<open>The \<open>for\<close> loop that writes the title into the HTML head:\<close>

fun title_loop :: "string \<Rightarrow> string \<Rightarrow> string" where
  "title_loop op [] = op"
| "title_loop op (c # title) =
     title_loop
       (if c = CHR ''<'' then op @ ''&lt;''
        else if c = CHR ''>'' then op @ ''&gt;''
        else if isspace c then op @ '' ''
        else op @ [c])
       title"

definition html_title :: "string \<Rightarrow> string \<Rightarrow> string" where
  "html_title op title = title_loop op (dropWhile isspace title)"

definition html_head :: string where
  "html_head =
     ''<!DOCTYPE html>\<newline><html>\<newline><head>\<newline><meta charset='' @ [dq] @ ''utf-8'' @ [dq]
       @ ''>\<newline><meta name='' @ [dq] @ ''viewport'' @ [dq] @ '' content='' @ [dq]
       @ ''width=device-width,initial-scale=1'' @ [dq] @ ''>\<newline><title>''"

text \<open>The \<open>switch\<close> on the output type, from the empty buffer \<open>op\<close>:\<close>

definition open_output :: "lowdown_type \<Rightarrow> string \<times> string option \<times> string \<Rightarrow> string" where
  "open_output t vars =
     (case vars of
        (title, author, date) \<Rightarrow>
          (case t of
             LOWDOWN_HTML \<Rightarrow>
               html_title html_head title @ ''</title>\<newline></head>\<newline><body>\<newline>''
           | LOWDOWN_NROFF \<Rightarrow>
               (let op = serialise_roff (''.DA '' @ date @ ''\<newline>.TL\<newline>'') title True
                in case author of
                     None \<Rightarrow> op
                   | Some a \<Rightarrow> serialise_roff (op @ ''.AU\<newline>'') a True)
           | LOWDOWN_MAN \<Rightarrow>
               serialise_roff (''.TH '' @ [dq]) title False
                 @ [dq] @ '' 7 '' @ date @ ''\<newline>''))"

text \<open>\<open>opts\<close> is dereferenced without a test. The result is \<open>*res\<close> and the state the
  call leaves.\<close>

definition lowdown_standalone_open ::
  "lowdown_opts option \<Rightarrow> lowdown_meta list \<Rightarrow> tm \<Rightarrow> world \<Rightarrow> fault + string \<times> world" where
  "lowdown_standalone_open opts m now w =
     (case open_vars m now w of
        (vars, w') \<Rightarrow>
          (case opts of
             None \<Rightarrow> Inl Null_dereference
           | Some os \<Rightarrow> Inr (open_output (type os) vars, w')))"

definition lowdown_standalone_close :: "lowdown_opts option \<Rightarrow> fault + string" where
  "lowdown_standalone_close opts =
     (case opts of
        None \<Rightarrow> Inl Null_dereference
      | Some os \<Rightarrow>
          Inr (case type os of
                 LOWDOWN_HTML \<Rightarrow> ''</body>\<newline></html>\<newline>''
               | _ \<Rightarrow> []))"

section \<open>Terms of the specification\<close>

text \<open>
  The three formats of library.c written out as grammars over \<open>conv_u\<close>: three integers
  with a separator after the first and the second; six integers in the shape
  \<open>year/month/day hour:minute:second\<close>; and the two readings of a date, with \<open>/\<close> first
  and with \<open>-\<close> when that fails.
\<close>

definition expect :: "char \<Rightarrow> string \<Rightarrow> string option" where
  "expect c s = (case s of [] \<Rightarrow> None | x # r \<Rightarrow> if x = c then Some r else None)"

definition three_uints :: "char \<Rightarrow> string \<Rightarrow> (uint \<times> uint \<times> uint) option" where
  "three_uints sep v =
     do {
       (y, r1) \<leftarrow> conv_u v;
       s1 \<leftarrow> expect sep r1;
       (m, r2) \<leftarrow> conv_u s1;
       s2 \<leftarrow> expect sep r2;
       (d, r3) \<leftarrow> conv_u s2;
       Some (y, m, d)
     }"

definition six_uints :: "string \<Rightarrow> (uint \<times> uint \<times> uint \<times> uint \<times> uint \<times> uint) option" where
  "six_uints v =
     do {
       (y, r1) \<leftarrow> conv_u v;
       s1 \<leftarrow> expect (CHR ''/'') r1;
       (m, r2) \<leftarrow> conv_u s1;
       s2 \<leftarrow> expect (CHR ''/'') r2;
       (d, r3) \<leftarrow> conv_u s2;
       (h, r4) \<leftarrow> conv_u (dropWhile isspace r3);
       s4 \<leftarrow> expect (CHR '':'') r4;
       (mi, r5) \<leftarrow> conv_u s4;
       s5 \<leftarrow> expect (CHR '':'') r5;
       (sec, r6) \<leftarrow> conv_u s5;
       Some (y, m, d, h, mi, sec)
     }"

definition date_grammar :: "string \<Rightarrow> (uint \<times> uint \<times> uint) option" where
  "date_grammar v =
     (case three_uints (CHR ''/'') v of Some r \<Rightarrow> Some r | None \<Rightarrow> three_uints (CHR ''-'') v)"

text \<open>The Canonical Date: the year as it is, month and day with a zero in front when they
  have one digit.\<close>

definition zero_pad2 :: "nat \<Rightarrow> string" where
  "zero_pad2 n = (if n < 10 then CHR ''0'' # dec n else dec n)"

definition canonical_date :: "nat \<Rightarrow> nat \<Rightarrow> nat \<Rightarrow> string" where
  "canonical_date y m d = dec y @ ''-'' @ zero_pad2 m @ ''-'' @ zero_pad2 d"

text \<open>
  \<open>normalizeDate\<close> and \<open>normalizeRcsDate\<close> of the specification are the string a call of
  \<open>date2str\<close> and \<open>rcsdate2str\<close> returns, if any. \<open>world0\<close> is the state at the start of
  the program: static buffers are zero-initialized, nothing has been written.
\<close>

definition world0 :: world where
  "world0 = \<lparr>date2str_buf = [], rcsdate2str_buf = [], stderr = []\<rparr>"

definition returned :: "bufptr option \<times> world \<Rightarrow> string option" where
  "returned r = map_option (deref (snd r)) (fst r)"

definition normalizeDate :: "string \<Rightarrow> string option" where
  "normalizeDate v = returned (date2str (Some v) world0)"

definition normalizeRcsDate :: "string \<Rightarrow> string option" where
  "normalizeRcsDate v = returned (rcsdate2str (Some v) world0)"

text \<open>Whether the typographic-substitution flag is set (it is not without options), and
  the substitution pass that belongs to the output type.\<close>

definition smarty_set :: "extern \<Rightarrow> lowdown_opts option \<Rightarrow> bool" where
  "smarty_set x opts =
     (case opts of None \<Rightarrow> False | Some os \<Rightarrow> LOWDOWN_SMARTY x AND oflags os \<noteq> 0)"

definition substitution :: "extern \<Rightarrow> lowdown_opts option \<Rightarrow> string \<Rightarrow> string" where
  "substitution x opts =
     (case opts of
        None \<Rightarrow> hsmrt_html x
      | Some os \<Rightarrow> if type os = LOWDOWN_HTML then hsmrt_html x else hsmrt_nroff x)"

text \<open>The HTML title escaping as the specification words it, a whitespace run giving a
  single space:\<close>

function title_runs :: "string \<Rightarrow> string" where
  "title_runs [] = []"
| "title_runs (c # cs) =
     (if c = CHR ''<'' then ''&lt;'' @ title_runs cs
      else if c = CHR ''>'' then ''&gt;'' @ title_runs cs
      else if isspace c then CHR '' '' # title_runs (dropWhile isspace cs)
      else c # title_runs cs)"
  by pat_completeness auto
termination
  by (relation "measure length") (auto simp: length_dropWhile_le less_Suc_eq_le)

definition spec_title_escape :: "string \<Rightarrow> string" where
  "spec_title_escape title = title_runs (dropWhile isspace title)"

text \<open>The last entry of the metadata with a property, and the entries that set the date
  with what they set it to.\<close>

definition last_entry :: "(lowdown_meta \<Rightarrow> bool) \<Rightarrow> lowdown_meta list \<Rightarrow> lowdown_meta option" where
  "last_entry P m = find P (rev m)"

definition date_entry :: "lowdown_meta \<Rightarrow> bool" where
  "date_entry e = (key e = ''rcsdate'' \<or> key e = ''date'')"

definition normalize_entry :: "lowdown_meta \<Rightarrow> string option" where
  "normalize_entry e =
     (if key e = ''rcsdate'' then normalizeRcsDate (val e) else normalizeDate (val e))"

text \<open>
  The reading of a date in words that do not go through the model of \<open>sscanf\<close>. White
  space is one of six characters, a digit one of ten. An integer is read as follows: white
  space is skipped; a \<open>+\<close> or a \<open>-\<close> may come next; then come decimal digits, at least one
  and as many as there are. Its value is the decimal value of the digits, and what is
  stored of it is that value modulo \<open>2^32\<close>, the negated value modulo \<open>2^32\<close> after a
  \<open>-\<close>, and 4294967295 once the digits amount to \<open>2^64\<close> or more.
\<close>

definition spec_white :: "char \<Rightarrow> bool" where
  "spec_white c = (c \<in> set [CHR 0x20, CHR 0x09, CHR 0x0A, CHR 0x0B, CHR 0x0C, CHR 0x0D])"

definition spec_digit :: "char \<Rightarrow> bool" where
  "spec_digit c = (c \<in> set ''0123456789'')"

definition spec_decimal :: "string \<Rightarrow> nat" where
  "spec_decimal ds =
     foldl (\<lambda>a c. 10 * a + length (takeWhile (\<lambda>x. x \<noteq> c) ''0123456789'')) 0 ds"

definition spec_stored :: "bool \<Rightarrow> nat \<Rightarrow> nat" where
  "spec_stored neg n =
     (if 2 ^ 64 \<le> n then 4294967295
      else if neg then (2 ^ 64 - n) mod 2 ^ 32
      else n mod 2 ^ 32)"

definition spec_integer :: "string \<Rightarrow> (nat \<times> string) option" where
  "spec_integer s =
     (let t = dropWhile spec_white s;
          u = (if take 1 t = ''-'' \<or> take 1 t = ''+'' then drop 1 t else t);
          ds = takeWhile spec_digit u
      in if ds = [] then None
         else Some (spec_stored (take 1 t = ''-'') (spec_decimal ds), dropWhile spec_digit u))"

text \<open>A separator is the next character itself, with nothing skipped before it.\<close>

definition spec_sep :: "char \<Rightarrow> string \<Rightarrow> string option" where
  "spec_sep c s = (if take 1 s = [c] then Some (drop 1 s) else None)"

text \<open>
  Three integers with a separator after the first and after the second, and the text left
  after the third; a date, read with \<open>/\<close> and, when that fails, with \<open>-\<close>; and the date of
  an RCS tag, year, month and day before hour, minute and second.
\<close>

definition spec_three :: "char \<Rightarrow> string \<Rightarrow> (nat \<times> nat \<times> nat \<times> string) option" where
  "spec_three sep v =
     do {
       (y, r1) \<leftarrow> spec_integer v;
       s1 \<leftarrow> spec_sep sep r1;
       (m, r2) \<leftarrow> spec_integer s1;
       s2 \<leftarrow> spec_sep sep r2;
       (d, r3) \<leftarrow> spec_integer s2;
       Some (y, m, d, r3)
     }"

definition spec_date :: "string \<Rightarrow> (nat \<times> nat \<times> nat) option" where
  "spec_date v =
     (case spec_three (CHR ''/'') v of
        Some (y, m, d, r) \<Rightarrow> Some (y, m, d)
      | None \<Rightarrow>
          (case spec_three (CHR ''-'') v of
             Some (y, m, d, r) \<Rightarrow> Some (y, m, d)
           | None \<Rightarrow> None))"

definition spec_rcs_date :: "string \<Rightarrow> (nat \<times> nat \<times> nat) option" where
  "spec_rcs_date v =
     do {
       (y, m, d, r3) \<leftarrow> spec_three (CHR ''/'') v;
       (h, mi, sec, r6) \<leftarrow> spec_three (CHR '':'') r3;
       Some (y, m, d)
     }"

text \<open>
  The text of one integer is its white space, its sign and its digits; \<open>value_of\<close> is what
  is stored of it. \<open>no_digit_next\<close> says that a text does not continue the digits before
  it.
\<close>

definition number_text :: "string \<times> string \<times> string \<Rightarrow> bool" where
  "number_text n =
     (case n of
        (ws, sg, ds) \<Rightarrow>
          list_all spec_white ws \<and> (sg = [] \<or> sg = ''+'' \<or> sg = ''-'')
            \<and> ds \<noteq> [] \<and> list_all spec_digit ds)"

definition text_of :: "string \<times> string \<times> string \<Rightarrow> string" where
  "text_of n = (case n of (ws, sg, ds) \<Rightarrow> ws @ sg @ ds)"

definition value_of :: "string \<times> string \<times> string \<Rightarrow> nat" where
  "value_of n = (case n of (ws, sg, ds) \<Rightarrow> spec_stored (sg = ''-'') (spec_decimal ds))"

definition no_digit_next :: "string \<Rightarrow> bool" where
  "no_digit_next rest = (case rest of [] \<Rightarrow> True | c # _ \<Rightarrow> \<not> spec_digit c)"

text \<open>
  The same readings as shapes of the text. A date is three integer texts with the same
  separator, \<open>/\<close> or \<open>-\<close>, after the first and after the second, and any text that does
  not continue the digits of the third. The date of an RCS tag is three integer texts with
  \<open>/\<close> between them and three more with \<open>:\<close> between them; the fourth follows the digits
  of the third directly, so it begins with white space or a sign.
\<close>

definition date_text :: "string \<Rightarrow> nat \<times> nat \<times> nat \<Rightarrow> bool" where
  "date_text v k =
     (\<exists>n1 n2 n3 sep rest.
        (sep = CHR ''/'' \<or> sep = CHR ''-'')
        \<and> number_text n1 \<and> number_text n2 \<and> number_text n3 \<and> no_digit_next rest
        \<and> v = text_of n1 @ sep # text_of n2 @ sep # text_of n3 @ rest
        \<and> k = (value_of n1, value_of n2, value_of n3))"

definition rcs_date_text :: "string \<Rightarrow> nat \<times> nat \<times> nat \<Rightarrow> bool" where
  "rcs_date_text v k =
     (\<exists>n1 n2 n3 n4 n5 n6 rest.
        number_text n1 \<and> number_text n2 \<and> number_text n3
        \<and> number_text n4 \<and> number_text n5 \<and> number_text n6
        \<and> no_digit_next (text_of n4) \<and> no_digit_next rest
        \<and> v = text_of n1 @ CHR ''/'' # text_of n2 @ CHR ''/'' # text_of n3
              @ text_of n4 @ CHR '':'' # text_of n5 @ CHR '':'' # text_of n6 @ rest
        \<and> k = (value_of n1, value_of n2, value_of n3))"

text \<open>
  C5, C6 and C10 as the claims word them: an unsigned integer is a run of digits with its
  decimal value, whatever its size, nothing is skipped and no sign is read, the date and the
  time of an RCS tag are a space apart, and the result is the whole Canonical Date.
\<close>

definition claimed_uint :: "string \<Rightarrow> (nat \<times> string) option" where
  "claimed_uint s =
     (if takeWhile spec_digit s = [] then None
      else Some (spec_decimal (takeWhile spec_digit s), dropWhile spec_digit s))"

definition claimed_three :: "char \<Rightarrow> string \<Rightarrow> (nat \<times> nat \<times> nat \<times> string) option" where
  "claimed_three sep v =
     do {
       (y, r1) \<leftarrow> claimed_uint v;
       s1 \<leftarrow> spec_sep sep r1;
       (m, r2) \<leftarrow> claimed_uint s1;
       s2 \<leftarrow> spec_sep sep r2;
       (d, r3) \<leftarrow> claimed_uint s2;
       Some (y, m, d, r3)
     }"

definition claimed_normalizeDate :: "string \<Rightarrow> string option" where
  "claimed_normalizeDate v =
     (case claimed_three (CHR ''/'') v of
        Some (y, m, d, r) \<Rightarrow> Some (canonical_date y m d)
      | None \<Rightarrow>
          (case claimed_three (CHR ''-'') v of
             Some (y, m, d, r) \<Rightarrow> Some (canonical_date y m d)
           | None \<Rightarrow> None))"

definition claimed_normalizeRcsDate :: "string \<Rightarrow> string option" where
  "claimed_normalizeRcsDate v =
     (if length v < 7 then None
      else
        do {
          (y, m, d, r3) \<leftarrow> claimed_three (CHR ''/'') (drop 7 v);
          s3 \<leftarrow> spec_sep (CHR '' '') r3;
          (h, mi, sec, r6) \<leftarrow> claimed_three (CHR '':'') s3;
          Some (canonical_date y m d)
        })"

section \<open>Lemmas\<close>

subsection \<open>Decimal output and the three formats\<close>

lemma dec_small: "n < 10 \<Longrightarrow> dec n = [''0123456789'' ! n]"
  by (simp add: dec.simps)

lemma dec_big: "10 \<le> n \<Longrightarrow> dec n = dec (n div 10) @ [''0123456789'' ! (n mod 10)]"
  by (subst dec.simps) simp

lemma dec_not_Nil: "dec n \<noteq> []"
  by (subst dec.simps) simp

lemma length_dec_small: "n < 10 \<Longrightarrow> length (dec n) = 1"
  by (simp add: dec_small)

lemma length_dec_big: "10 \<le> n \<Longrightarrow> 2 \<le> length (dec n)"
proof -
  assume "10 \<le> n"
  moreover have "1 \<le> length (dec (n div 10))"
    using dec_not_Nil [of "n div 10"] by (cases "dec (n div 10)") simp_all
  ultimately show ?thesis by (simp add: dec_big)
qed

lemma fmt_u_1: "fmt_u 1 n = dec n"
  using dec_not_Nil [of n] by (cases "dec n") (simp_all add: fmt_u_def)

lemma fmt_u_2: "fmt_u 2 n = zero_pad2 n"
proof (cases "n < 10")
  case True
  then show ?thesis by (simp add: fmt_u_def zero_pad2_def length_dec_small)
next
  case False
  then have "2 \<le> length (dec n)" by (simp add: length_dec_big)
  with False show ?thesis by (simp add: fmt_u_def zero_pad2_def)
qed

lemma snprintf_date_canonical:
  "snprintf_date 32 y m d = take 31 (canonical_date (unat y) (unat m) (unat d))"
  unfolding snprintf_date_def canonical_date_def fmt_u_1 fmt_u_2 by simp

lemma length_dec_le: "0 < k \<Longrightarrow> n < 10 ^ k \<Longrightarrow> length (dec n) \<le> k"
proof (induction n arbitrary: k rule: dec.induct)
  case (1 n)
  show ?case
  proof (cases "n < 10")
    case True
    with "1.prems" show ?thesis by (simp add: length_dec_small)
  next
    case False
    then obtain j where k: "k = Suc j" and j: "0 < j"
      using "1.prems" by (cases k; cases "k - 1") auto
    have "n div 10 < 10 ^ j"
      using "1.prems"(2) k by (simp add: less_mult_imp_div_less mult.commute)
    then have "length (dec (n div 10)) \<le> j"
      using "1.IH" False j by simp
    with False k show ?thesis by (simp add: dec_big)
  qed
qed

lemma length_zero_pad2: "n < 10 ^ k \<Longrightarrow> 2 \<le> k \<Longrightarrow> length (zero_pad2 n) \<le> k"
  using length_dec_le [of k n] by (auto simp: zero_pad2_def length_dec_small)

lemma length_dec_uint: "length (dec (unat (x :: uint))) \<le> 10"
proof -
  have "unat x < 2 ^ 32" using unsigned_less [of x] by simp
  then have "unat x < 10 ^ 10" by simp
  then show ?thesis by (simp add: length_dec_le)
qed

lemma length_zero_pad2_uint: "length (zero_pad2 (unat (x :: uint))) \<le> 10"
proof -
  have "unat x < 2 ^ 32" using unsigned_less [of x] by simp
  then have "unat x < 10 ^ 10" by simp
  then show ?thesis by (simp add: length_zero_pad2)
qed

lemma canonical_date_fits:
  fixes y m d :: uint
  assumes "unat y < 10 ^ 9 \<or> unat m < 10 ^ 9 \<or> unat d < 10 ^ 9"
  shows "take 31 (canonical_date (unat y) (unat m) (unat d)) = canonical_date (unat y) (unat m) (unat d)"
proof -
  have a: "length (dec (unat y)) \<le> 10" "length (zero_pad2 (unat m)) \<le> 10"
    "length (zero_pad2 (unat d)) \<le> 10"
    by (rule length_dec_uint length_zero_pad2_uint)+
  from assms have "length (dec (unat y)) \<le> 9 \<or> length (zero_pad2 (unat m)) \<le> 9
      \<or> length (zero_pad2 (unat d)) \<le> 9"
    using length_dec_le [of 9 "unat y"] length_zero_pad2 [of "unat m" 9]
      length_zero_pad2 [of "unat d" 9] by auto
  with a have "length (canonical_date (unat y) (unat m) (unat d)) \<le> 31"
    by (auto simp: canonical_date_def)
  then show ?thesis by simp
qed

lemma directives_slash:
  "directives ''%u/%u/%u'' = [Conv_u, Ordinary (CHR ''/''), Conv_u, Ordinary (CHR ''/''), Conv_u]"
  by (simp add: isspace_def)

lemma directives_dash:
  "directives ''%u-%u-%u'' = [Conv_u, Ordinary (CHR ''-''), Conv_u, Ordinary (CHR ''-''), Conv_u]"
  by (simp add: isspace_def)

lemma directives_rcs:
  "directives ''%u/%u/%u %u:%u:%u'' =
     [Conv_u, Ordinary (CHR ''/''), Conv_u, Ordinary (CHR ''/''), Conv_u, White,
      Conv_u, Ordinary (CHR '':''), Conv_u, Ordinary (CHR '':''), Conv_u]"
  by (simp add: isspace_def)

lemma scan_three:
  "(case scan [Conv_u, Ordinary sep, Conv_u, Ordinary sep, Conv_u] v of
      [y, m, d] \<Rightarrow> A y m d | _ \<Rightarrow> B)
   = (case three_uints sep v of Some (y, m, d) \<Rightarrow> A y m d | None \<Rightarrow> B)"
  by (simp add: three_uints_def expect_def split: option.splits list.splits prod.splits)

lemma scan_six:
  "(case scan [Conv_u, Ordinary (CHR ''/''), Conv_u, Ordinary (CHR ''/''), Conv_u, White,
      Conv_u, Ordinary (CHR '':''), Conv_u, Ordinary (CHR '':''), Conv_u] v of
      [y, m, d, h, mi, sec] \<Rightarrow> A y m d | _ \<Rightarrow> B)
   = (case six_uints v of Some (y, m, d, h, mi, sec) \<Rightarrow> A y m d | None \<Rightarrow> B)"
  by (simp add: six_uints_def expect_def split: option.splits list.splits prod.splits)

lemma date2str_eq:
  "date2str (Some v) w =
     (case date_grammar v of
        Some (y, m, d) \<Rightarrow>
          (Some Date2str_buf,
           w\<lparr>date2str_buf := take 31 (canonical_date (unat y) (unat m) (unat d))\<rparr>)
      | None \<Rightarrow> (None, w\<lparr>stderr := stderr w @ [''malformed ISO-8601 date'']\<rparr>))"
  unfolding date2str_def sscanf_def directives_slash directives_dash scan_three
  by (simp add: date_grammar_def snprintf_date_canonical warnx_def split: option.splits)

lemma rcsdate2str_eq:
  "rcsdate2str (Some v) w =
     (if length v < 7 then (None, w\<lparr>stderr := stderr w @ [''malformed RCS date'']\<rparr>)
      else
        (case six_uints (drop 7 v) of
           Some (y, m, d, h, mi, sec) \<Rightarrow>
             (Some Rcsdate2str_buf,
              w\<lparr>rcsdate2str_buf := take 31 (canonical_date (unat y) (unat m) (unat d))\<rparr>)
         | None \<Rightarrow> (None, w\<lparr>stderr := stderr w @ [''malformed RCS date'']\<rparr>)))"
  unfolding rcsdate2str_def sscanf_def directives_rcs scan_six
  by (simp add: snprintf_date_canonical warnx_def split: option.splits)

lemma returned_date2str:
  "returned (date2str (Some v) w) =
     map_option (\<lambda>(y, m, d). take 31 (canonical_date (unat y) (unat m) (unat d))) (date_grammar v)"
  by (simp add: date2str_eq returned_def deref_def split: option.splits)

lemma returned_rcsdate2str:
  "returned (rcsdate2str (Some v) w) =
     (if length v < 7 then None
      else map_option (\<lambda>(y, m, d, h, mi, sec). take 31 (canonical_date (unat y) (unat m) (unat d)))
             (six_uints (drop 7 v)))"
  by (simp add: rcsdate2str_eq returned_def deref_def split: option.splits)

lemma returned_date2str_world: "returned (date2str (Some v) w) = normalizeDate v"
  by (simp add: normalizeDate_def returned_date2str)

lemma returned_rcsdate2str_world: "returned (rcsdate2str (Some v) w) = normalizeRcsDate v"
  by (simp add: normalizeRcsDate_def returned_rcsdate2str)

lemma isdigit_not_isspace: "isdigit c \<Longrightarrow> \<not> isspace c"
  by (auto simp: isdigit_def isspace_def Let_def)

lemma isdigit_not_sign: "isdigit c \<Longrightarrow> c \<noteq> CHR ''-'' \<and> c \<noteq> CHR ''+''"
  by (auto simp: isdigit_def)

subsection \<open>The escaping loops\<close>

lemma title_loop_concat:
  "title_loop op s =
     op @ concat (map (\<lambda>c. if c = CHR ''<'' then ''&lt;'' else if c = CHR ''>'' then ''&gt;''
                           else if isspace c then '' '' else [c]) s)"
  by (induction s arbitrary: op) simp_all

lemma roff_loop_concat:
  "roff_loop block op s =
     op @ concat (map (\<lambda>c. if c = bs then [bs, CHR ''e'']
                           else if \<not> block \<and> c = dq then [bs, CHR ''('', CHR ''d'', CHR ''q'']
                           else if isspace c then '' '' else [c]) s)"
  by (induction s arbitrary: op) simp_all

subsection \<open>The metadata loop\<close>

lemma last_entry_Nil: "last_entry P [] = None"
  by (simp add: last_entry_def)

lemma find_app:
  "find P (xs @ ys) = (case find P xs of None \<Rightarrow> find P ys | Some x \<Rightarrow> Some x)"
  by (induction xs) simp_all

lemma last_entry_Cons:
  "last_entry P (e # m) =
     (case last_entry P m of Some x \<Rightarrow> Some x | None \<Rightarrow> if P e then Some e else None)"
  by (simp add: last_entry_def find_app split: option.splits)

lemma returned_eq: "returned (p, w) = map_option (deref w) p"
  by (simp add: returned_def)

lemma meta_loop_last:
  "meta_loop m (t, a, d) w = ((t', a', d'), w') \<Longrightarrow>
     t' = (case last_entry (\<lambda>e. key e = ''title'') m of None \<Rightarrow> t | Some e \<Rightarrow> val e)
     \<and> a' = (case last_entry (\<lambda>e. key e = ''author'') m of None \<Rightarrow> a | Some e \<Rightarrow> Some (val e))
     \<and> map_option (deref w') d' =
         (case last_entry date_entry m of
            None \<Rightarrow> map_option (deref w) d
          | Some e \<Rightarrow> normalize_entry e)"
proof (induction m arbitrary: t a d w)
  case Nil
  then show ?case by (simp add: last_entry_Nil)
next
  case (Cons e m)
  consider (title) "key e = ''title''"
    | (author) "key e \<noteq> ''title''" "key e = ''author''"
    | (rcsdate) "key e \<noteq> ''title''" "key e \<noteq> ''author''" "key e = ''rcsdate''"
    | (date) "key e \<noteq> ''title''" "key e \<noteq> ''author''" "key e \<noteq> ''rcsdate''" "key e = ''date''"
    | (other) "key e \<noteq> ''title''" "key e \<noteq> ''author''" "key e \<noteq> ''rcsdate''" "key e \<noteq> ''date''"
    by blast
  then show ?case
  proof cases
    case title
    with Cons.prems have "meta_loop m (val e, a, d) w = ((t', a', d'), w')" by simp
    from Cons.IH [OF this] title show ?thesis
      by (simp add: last_entry_Cons date_entry_def split: option.splits)
  next
    case author
    with Cons.prems have "meta_loop m (t, Some (val e), d) w = ((t', a', d'), w')" by simp
    from Cons.IH [OF this] author show ?thesis
      by (simp add: last_entry_Cons date_entry_def split: option.splits)
  next
    case rcsdate
    obtain p w1 where r: "rcsdate2str (Some (val e)) w = (p, w1)" by force
    with rcsdate Cons.prems have "meta_loop m (t, a, p) w1 = ((t', a', d'), w')" by simp
    moreover have "map_option (deref w1) p = normalize_entry e"
      using returned_rcsdate2str_world [of "val e" w] r rcsdate
      by (simp add: returned_eq normalize_entry_def)
    ultimately show ?thesis
      using Cons.IH [of t a p w1] rcsdate
      by (simp add: last_entry_Cons date_entry_def split: option.splits)
  next
    case date
    obtain p w1 where r: "date2str (Some (val e)) w = (p, w1)" by force
    with date Cons.prems have "meta_loop m (t, a, p) w1 = ((t', a', d'), w')" by simp
    moreover have "map_option (deref w1) p = normalize_entry e"
      using returned_date2str_world [of "val e" w] r date
      by (simp add: returned_eq normalize_entry_def)
    ultimately show ?thesis
      using Cons.IH [of t a p w1] date
      by (simp add: last_entry_Cons date_entry_def split: option.splits)
  next
    case other
    with Cons.prems have "meta_loop m (t, a, d) w = ((t', a', d'), w')" by simp
    from Cons.IH [OF this] other show ?thesis
      by (simp add: last_entry_Cons date_entry_def split: option.splits)
  qed
qed

lemma open_vars_eq:
  "fst (open_vars m now w) =
     (case last_entry (\<lambda>e. key e = ''title'') m of None \<Rightarrow> ''Untitled article'' | Some e \<Rightarrow> val e,
      map_option val (last_entry (\<lambda>e. key e = ''author'') m),
      case last_entry date_entry m of
        None \<Rightarrow> strftime_F now
      | Some e \<Rightarrow> (case normalize_entry e of None \<Rightarrow> strftime_F now | Some s \<Rightarrow> s))"
proof -
  obtain t' a' d' w' where l: "meta_loop m (''Untitled article'', None, None) w = ((t', a', d'), w')"
    by (metis prod_cases3 surj_pair)
  from meta_loop_last [OF l] show ?thesis
    unfolding open_vars_def l
    by (cases d') (auto split: option.splits)
qed

subsection \<open>Text appended to a string that is read\<close>

lemma conv_u_Nil: "conv_u [] = None"
  by (simp add: conv_u_def)

lemma conv_u_SomeD:
  assumes "conv_u s = Some (x, r)"
  obtains neg s2 where "read_sign (dropWhile isspace s) = (neg, s2)"
    and "takeWhile isdigit s2 \<noteq> []" and "r = dropWhile isdigit s2"
    and "x = store_uint neg (digits_val 0 (takeWhile isdigit s2))"
proof -
  obtain neg s2 where rs: "read_sign (dropWhile isspace s) = (neg, s2)" by force
  with assms show ?thesis
    by (intro that [of neg s2]) (auto simp: conv_u_def split: list.splits)
qed

lemma read_sign_append:
  "read_sign s1 = (neg, s2) \<Longrightarrow> s1 \<noteq> [] \<Longrightarrow> read_sign (s1 @ t) = (neg, s2 @ t)"
  by (cases s1) (auto split: if_splits)

lemma dropWhile_append_nonempty:
  "dropWhile P xs \<noteq> [] \<Longrightarrow> dropWhile P (xs @ ys) = dropWhile P xs @ ys"
  by (induction xs) auto

lemma takeWhile_append_nonempty:
  "dropWhile P xs \<noteq> [] \<Longrightarrow> takeWhile P (xs @ ys) = takeWhile P xs"
  by (induction xs) auto

lemma takeWhile_append_nonempty':
  "takeWhile P xs \<noteq> [] \<Longrightarrow> takeWhile P (xs @ ys) \<noteq> []"
  by (cases xs) (auto split: if_splits)

lemma read_sign_Nil: "read_sign s1 = (neg, s2) \<Longrightarrow> s2 \<noteq> [] \<Longrightarrow> s1 \<noteq> []"
  by (cases s1) auto

lemma conv_u_append_rest:
  assumes "conv_u s = Some (x, r)" and "r \<noteq> []"
  shows "conv_u (s @ t) = Some (x, r @ t)"
proof -
  from assms(1) obtain neg s2 where rs: "read_sign (dropWhile isspace s) = (neg, s2)"
    and tw: "takeWhile isdigit s2 \<noteq> []" and r: "r = dropWhile isdigit s2"
    and x: "x = store_uint neg (digits_val 0 (takeWhile isdigit s2))"
    by (rule conv_u_SomeD)
  from tw have s2: "s2 \<noteq> []" by auto
  have s1: "dropWhile isspace s \<noteq> []" by (rule read_sign_Nil [OF rs s2])
  have 1: "dropWhile isspace (s @ t) = dropWhile isspace s @ t"
    by (rule dropWhile_append_nonempty [OF s1])
  have 2: "read_sign (dropWhile isspace s @ t) = (neg, s2 @ t)"
    by (rule read_sign_append [OF rs s1])
  from assms(2) r have d: "dropWhile isdigit s2 \<noteq> []" by simp
  have 3: "takeWhile isdigit (s2 @ t) = takeWhile isdigit s2"
    by (rule takeWhile_append_nonempty [OF d])
  have 4: "dropWhile isdigit (s2 @ t) = r @ t"
    using dropWhile_append_nonempty [OF d] r by simp
  show ?thesis
    unfolding conv_u_def 1 2 using tw x 3 4 by (simp split: list.splits)
qed

lemma conv_u_append_ex:
  assumes "conv_u s = Some (x, r)"
  shows "\<exists>x' r'. conv_u (s @ t) = Some (x', r')"
proof -
  from assms obtain neg s2 where rs: "read_sign (dropWhile isspace s) = (neg, s2)"
    and tw: "takeWhile isdigit s2 \<noteq> []"
    by (rule conv_u_SomeD)
  from tw have s2: "s2 \<noteq> []" by auto
  have s1: "dropWhile isspace s \<noteq> []" by (rule read_sign_Nil [OF rs s2])
  have 1: "dropWhile isspace (s @ t) = dropWhile isspace s @ t"
    by (rule dropWhile_append_nonempty [OF s1])
  have 2: "read_sign (dropWhile isspace s @ t) = (neg, s2 @ t)"
    by (rule read_sign_append [OF rs s1])
  have 3: "takeWhile isdigit (s2 @ t) \<noteq> []"
    by (rule takeWhile_append_nonempty' [OF tw])
  show ?thesis
    unfolding conv_u_def 1 2 using 3 by (simp split: list.splits)
qed

lemma expect_SomeD: "expect c s = Some r \<Longrightarrow> s = c # r"
  by (auto simp: expect_def split: list.splits if_splits)

lemma expect_Cons: "expect c (c # r) = Some r"
  by (simp add: expect_def)

lemma three_uints_append:
  assumes "three_uints sep v = Some (y, m, d)"
  shows "\<exists>d'. three_uints sep (v @ t) = Some (y, m, d')"
proof -
  from assms obtain r1 s1 r2 s2 r3 where
    a: "conv_u v = Some (y, r1)" "expect sep r1 = Some s1"
      "conv_u s1 = Some (m, r2)" "expect sep r2 = Some s2" "conv_u s2 = Some (d, r3)"
    by (auto simp: three_uints_def split: bind_splits)
  from a(2) have r1: "r1 = sep # s1" by (rule expect_SomeD)
  from a(4) have r2: "r2 = sep # s2" by (rule expect_SomeD)
  have 1: "conv_u (v @ t) = Some (y, sep # s1 @ t)"
    using conv_u_append_rest [OF a(1), of t] r1 by simp
  have 2: "conv_u (s1 @ t) = Some (m, sep # s2 @ t)"
    using conv_u_append_rest [OF a(3), of t] r2 by simp
  obtain d' r' where 3: "conv_u (s2 @ t) = Some (d', r')"
    using conv_u_append_ex [OF a(5), of t] by blast
  show ?thesis
    unfolding three_uints_def by (simp add: 1 2 3 expect_Cons)
qed

lemma conv_u_skip_space: "conv_u (dropWhile isspace s) = conv_u s"
  by (simp add: conv_u_def dropWhile_idem)

lemma six_uints_append:
  assumes "six_uints v = Some z"
  shows "six_uints (v @ t) \<noteq> None"
proof -
  from assms obtain y r1 s1 m r2 s2 d r3 h r4 s4 mi r5 s5 sec r6 where
    a: "conv_u v = Some (y, r1)" "expect (CHR ''/'') r1 = Some s1"
      "conv_u s1 = Some (m, r2)" "expect (CHR ''/'') r2 = Some s2" "conv_u s2 = Some (d, r3)"
      "conv_u r3 = Some (h, r4)" "expect (CHR '':'') r4 = Some s4"
      "conv_u s4 = Some (mi, r5)" "expect (CHR '':'') r5 = Some s5" "conv_u s5 = Some (sec, r6)"
    by (auto simp: six_uints_def conv_u_skip_space split: bind_splits)
  from a(2) have r1: "r1 = CHR ''/'' # s1" by (rule expect_SomeD)
  from a(4) have r2: "r2 = CHR ''/'' # s2" by (rule expect_SomeD)
  from a(7) have r4: "r4 = CHR '':'' # s4" by (rule expect_SomeD)
  from a(9) have r5: "r5 = CHR '':'' # s5" by (rule expect_SomeD)
  from a(6) have r3: "r3 \<noteq> []" by (auto simp: conv_u_Nil)
  have 1: "conv_u (v @ t) = Some (y, CHR ''/'' # s1 @ t)"
    using conv_u_append_rest [OF a(1), of t] r1 by simp
  have 2: "conv_u (s1 @ t) = Some (m, CHR ''/'' # s2 @ t)"
    using conv_u_append_rest [OF a(3), of t] r2 by simp
  have 3: "conv_u (s2 @ t) = Some (d, r3 @ t)"
    using conv_u_append_rest [OF a(5) r3, of t] by simp
  have 4: "conv_u (r3 @ t) = Some (h, CHR '':'' # s4 @ t)"
    using conv_u_append_rest [OF a(6), of t] r4 by simp
  have 5: "conv_u (s4 @ t) = Some (mi, CHR '':'' # s5 @ t)"
    using conv_u_append_rest [OF a(8), of t] r5 by simp
  obtain sec' r' where 6: "conv_u (s5 @ t) = Some (sec', r')"
    using conv_u_append_ex [OF a(10), of t] by blast
  show ?thesis
    unfolding six_uints_def by (simp add: 1 2 3 4 5 6 expect_Cons conv_u_skip_space)
qed

lemma date_grammar_append: "date_grammar v \<noteq> None \<Longrightarrow> date_grammar (v @ t) \<noteq> None"
  unfolding date_grammar_def
  using three_uints_append [of "CHR ''/''" v _ _ _ t] three_uints_append [of "CHR ''-''" v _ _ _ t]
  by (fastforce split: option.splits)

lemma normalizeDate_append: "normalizeDate v \<noteq> None \<Longrightarrow> normalizeDate (v @ t) \<noteq> None"
  using date_grammar_append [of v t]
  by (simp add: normalizeDate_def returned_date2str)

lemma normalizeRcsDate_append: "normalizeRcsDate v \<noteq> None \<Longrightarrow> normalizeRcsDate (v @ t) \<noteq> None"
  using six_uints_append [of "drop 7 v" _ t]
  by (auto simp: normalizeRcsDate_def returned_rcsdate2str split: if_splits)

subsection \<open>Evaluation\<close>

text \<open>Rules that evaluate the model on given strings.\<close>

lemmas grammar_eval =
  date_grammar_def three_uints_def six_uints_def expect_def conv_u_def store_uint_def
  isspace_def isdigit_def digit_val_def

lemmas canonical_eval = canonical_date_def zero_pad2_def dec_small dec_big

lemmas normalize_eval =
  normalize_entry_def normalizeDate_def normalizeRcsDate_def returned_date2str
  returned_rcsdate2str

lemma strftime_F_canonical:
  "0 \<le> 1900 + tm_year now \<Longrightarrow>
     strftime_F now
       = canonical_date (nat (1900 + tm_year now)) (nat (tm_mon now + 1)) (nat (tm_mday now))"
  by (simp add: strftime_F_def canonical_date_def dec_int_def fmt_u_2)

subsection \<open>Reading what was written\<close>

lemma digit_char:
  assumes "k < 10"
  shows "isdigit (''0123456789'' ! k)" and "digit_val (''0123456789'' ! k) = k"
proof -
  from assms have "k \<in> {0, 1, 2, 3, 4, 5, 6, 7, 8, 9}" by auto
  then show "isdigit (''0123456789'' ! k)" and "digit_val (''0123456789'' ! k) = k"
    by (auto simp: isdigit_def digit_val_def)
qed

lemma digits_val_append: "digits_val a (xs @ ys) = digits_val (digits_val a xs) ys"
  by (induction xs arbitrary: a) simp_all

lemma list_all_isdigit_dec: "list_all isdigit (dec n)"
proof (induction n rule: dec.induct)
  case (1 n)
  show ?case
  proof (cases "n < 10")
    case True
    then show ?thesis by (simp add: dec_small digit_char)
  next
    case False
    then have "list_all isdigit (dec (n div 10))" by (rule "1.IH")
    with False show ?thesis by (simp add: dec_big digit_char)
  qed
qed

lemma digits_val_dec: "digits_val 0 (dec n) = n"
proof (induction n rule: dec.induct)
  case (1 n)
  show ?case
  proof (cases "n < 10")
    case True
    then show ?thesis by (simp add: dec_small digit_char)
  next
    case False
    then have "digits_val 0 (dec (n div 10)) = n div 10" by (rule "1.IH")
    with False show ?thesis by (simp add: dec_big digits_val_append digit_char)
  qed
qed

subsection \<open>The reading of a date and the model of \<open>sscanf\<close>\<close>

text \<open>The conversion \<open>%u\<close> of the model reads what \<open>spec_integer\<close> reads, and stores the
  value that \<open>spec_stored\<close> gives; so the two functions of the library read a date as
  \<open>spec_date\<close> and \<open>spec_rcs_date\<close> do.\<close>


lemma char_is: "of_char d = (n :: nat) \<Longrightarrow> (c = d) = (of_char c = n)"
  by (metis of_char_eq_iff)

lemma isspace_spec: "isspace c = spec_white c"
proof -
  have a: "(9 \<le> n \<and> n \<le> 13) = (n = 9 \<or> n = 10 \<or> n = 11 \<or> n = 12 \<or> n = 13)" for n :: nat
    by arith
  have b: "(c = CHR 0x20) = (of_char c = (32 :: nat))" "(c = CHR 0x09) = (of_char c = (9 :: nat))"
    "(c = CHR 0x0A) = (of_char c = (10 :: nat))" "(c = CHR 0x0B) = (of_char c = (11 :: nat))"
    "(c = CHR 0x0C) = (of_char c = (12 :: nat))" "(c = CHR 0x0D) = (of_char c = (13 :: nat))"
    by (rule char_is, simp)+
  show ?thesis
    unfolding isspace_def spec_white_def Let_def a by (simp only: list.set insert_iff b) auto
qed

lemma isdigit_spec: "isdigit c = spec_digit c"
proof -
  have a: "(48 \<le> n \<and> n \<le> 57) = (n = 48 \<or> n = 49 \<or> n = 50 \<or> n = 51 \<or> n = 52 \<or> n = 53
      \<or> n = 54 \<or> n = 55 \<or> n = 56 \<or> n = 57)" for n :: nat
    by arith
  have b: "(c = CHR ''0'') = (of_char c = (48 :: nat))" "(c = CHR ''1'') = (of_char c = (49 :: nat))"
    "(c = CHR ''2'') = (of_char c = (50 :: nat))" "(c = CHR ''3'') = (of_char c = (51 :: nat))"
    "(c = CHR ''4'') = (of_char c = (52 :: nat))" "(c = CHR ''5'') = (of_char c = (53 :: nat))"
    "(c = CHR ''6'') = (of_char c = (54 :: nat))" "(c = CHR ''7'') = (of_char c = (55 :: nat))"
    "(c = CHR ''8'') = (of_char c = (56 :: nat))" "(c = CHR ''9'') = (of_char c = (57 :: nat))"
    by (rule char_is, simp)+
  show ?thesis
    unfolding isdigit_def spec_digit_def Let_def a by (simp only: list.set insert_iff b) auto
qed

lemma isspace_eq: "isspace = spec_white"
  by (rule ext) (rule isspace_spec)

lemma isdigit_eq: "isdigit = spec_digit"
  by (rule ext) (rule isdigit_spec)

lemma digit_val_spec:
  "spec_digit c \<Longrightarrow> digit_val c = length (takeWhile (\<lambda>x. x \<noteq> c) ''0123456789'')"
proof -
  assume "spec_digit c"
  then consider "c = CHR ''0''" | "c = CHR ''1''" | "c = CHR ''2''" | "c = CHR ''3''"
    | "c = CHR ''4''" | "c = CHR ''5''" | "c = CHR ''6''" | "c = CHR ''7''"
    | "c = CHR ''8''" | "c = CHR ''9''"
    unfolding spec_digit_def by (simp only: list.set insert_iff empty_iff) blast
  then show ?thesis
    by cases (simp_all add: digit_val_def)
qed

lemma digits_val_foldl:
  "list_all spec_digit ds \<Longrightarrow>
     digits_val a ds
       = foldl (\<lambda>a c. 10 * a + length (takeWhile (\<lambda>x. x \<noteq> c) ''0123456789'')) a ds"
  by (induction ds arbitrary: a) (simp_all add: digit_val_spec)

lemma digits_val_spec: "list_all spec_digit ds \<Longrightarrow> digits_val 0 ds = spec_decimal ds"
  by (simp add: spec_decimal_def digits_val_foldl)

lemma list_all_takeWhile: "list_all P (takeWhile P xs)"
  by (induction xs) simp_all

lemma word_of_nat_mod32: "(of_nat (k mod 2 ^ 32) :: uint) = of_nat k"
  by (simp add: word_of_nat_eq_iff take_bit_eq_mod)

lemma spec_stored_less: "spec_stored neg n < 2 ^ 32"
  by (simp add: spec_stored_def)

lemma store_uint_spec: "store_uint neg n = of_nat (spec_stored neg n)"
proof (cases "(2 :: nat) ^ 64 \<le> n")
  case True
  then show ?thesis by (simp add: store_uint_def spec_stored_def)
next
  case False
  then have n: "n \<le> 2 ^ 64" by simp
  have "(of_nat ((2 ^ 64 - n) mod 2 ^ 32) :: uint) = of_nat (2 ^ 64 - n)"
    by (rule word_of_nat_mod32)
  also have "\<dots> = of_nat (2 ^ 64) - of_nat n"
    using n by (rule of_nat_diff)
  also have "\<dots> = - of_nat n"
    by simp
  finally have a: "(of_nat ((2 ^ 64 - n) mod 2 ^ 32) :: uint) = - of_nat n" .
  have b: "(of_nat (n mod 2 ^ 32) :: uint) = of_nat n"
    by (rule word_of_nat_mod32)
  show ?thesis
    using False a b by (cases neg) (simp_all add: store_uint_def spec_stored_def)
qed

lemma read_sign_spec:
  "read_sign t =
     (take 1 t = ''-'', if take 1 t = ''-'' \<or> take 1 t = ''+'' then drop 1 t else t)"
  by (cases t) auto

lemma conv_digits_spec:
  "(case takeWhile spec_digit u of
      [] \<Rightarrow> None
    | d # ds \<Rightarrow> Some (store_uint b (digits_val 0 (d # ds)), dropWhile spec_digit u))
   = map_option (\<lambda>(n, r). (of_nat n, r))
       (if takeWhile spec_digit u = [] then None
        else Some (spec_stored b (spec_decimal (takeWhile spec_digit u)), dropWhile spec_digit u))"
proof (cases "takeWhile spec_digit u")
  case Nil
  then show ?thesis by simp
next
  case (Cons c cs)
  have "digits_val 0 (takeWhile spec_digit u) = spec_decimal (takeWhile spec_digit u)"
    by (rule digits_val_spec) (rule list_all_takeWhile)
  with Cons show ?thesis by (simp add: store_uint_spec)
qed

lemma conv_u_spec:
  "conv_u s = map_option (\<lambda>(n, r). (of_nat n, r)) (spec_integer s)"
  unfolding conv_u_def spec_integer_def isspace_eq isdigit_eq read_sign_spec Let_def prod.case
  by (rule conv_digits_spec)

lemma spec_integer_less: "spec_integer s = Some (n, r) \<Longrightarrow> n < 2 ^ 32"
  using spec_stored_less by (auto simp: spec_integer_def Let_def split: if_splits)

lemma expect_spec: "expect c s = spec_sep c s"
  by (cases s) (auto simp: expect_def spec_sep_def)

lemma three_uints_spec:
  "three_uints sep v
     = map_option (\<lambda>(y, m, d, r). (of_nat y, of_nat m, of_nat d)) (spec_three sep v)"
  by (auto simp: three_uints_def spec_three_def conv_u_spec expect_spec
      split: bind_splits option.splits)

lemma spec_three_less:
  assumes "spec_three sep v = Some (y, m, d, r)"
  shows "y < 2 ^ 32 \<and> m < 2 ^ 32 \<and> d < 2 ^ 32"
proof -
  from assms obtain r1 s1 r2 s2 where "spec_integer v = Some (y, r1)"
    "spec_integer s1 = Some (m, r2)" "spec_integer s2 = Some (d, r)"
    by (auto simp: spec_three_def split: bind_splits)
  then show ?thesis by (blast dest: spec_integer_less)
qed

lemma spec_date_less:
  assumes "spec_date v = Some (y, m, d)"
  shows "y < 2 ^ 32 \<and> m < 2 ^ 32 \<and> d < 2 ^ 32"
proof -
  from assms obtain sep r where "spec_three sep v = Some (y, m, d, r)"
    by (auto simp: spec_date_def split: option.splits)
  then show ?thesis by (rule spec_three_less)
qed

lemma date_grammar_spec:
  "date_grammar v = map_option (\<lambda>(y, m, d). (of_nat y, of_nat m, of_nat d)) (spec_date v)"
  by (auto simp: date_grammar_def spec_date_def three_uints_spec split: option.splits)

lemma six_uints_spec:
  "map_option (\<lambda>(y, m, d, h, mi, sec). (y, m, d)) (six_uints v)
     = map_option (\<lambda>(y, m, d). (of_nat y, of_nat m, of_nat d)) (spec_rcs_date v)"
  by (auto simp: six_uints_def spec_rcs_date_def spec_three_def conv_u_spec expect_spec
      conv_u_skip_space [unfolded conv_u_spec]
      split: bind_splits option.splits)

lemma unat_of_nat_less: "n < 2 ^ 32 \<Longrightarrow> unat (of_nat n :: uint) = n"
  by (simp add: unat_of_nat)

lemma normalizeDate_spec:
  "normalizeDate v = map_option (\<lambda>(y, m, d). take 31 (canonical_date y m d)) (spec_date v)"
proof (cases "spec_date v")
  case None
  then show ?thesis
    by (simp add: normalizeDate_def returned_date2str date_grammar_spec)
next
  case (Some a)
  obtain y m d where a: "a = (y, m, d)" by (cases a)
  from Some a have "spec_date v = Some (y, m, d)" by simp
  then have "y < 2 ^ 32 \<and> m < 2 ^ 32 \<and> d < 2 ^ 32"
    by (rule spec_date_less)
  then have "unat (of_nat y :: uint) = y" "unat (of_nat m :: uint) = m" "unat (of_nat d :: uint) = d"
    by (simp_all only: unat_of_nat_less)
  with Some a show ?thesis
    by (simp add: normalizeDate_def returned_date2str date_grammar_spec)
qed

lemma pattern_takeWhile:
  "list_all spec_digit ds \<Longrightarrow> no_digit_next rest \<Longrightarrow> takeWhile spec_digit (ds @ rest) = ds"
  by (cases rest) (simp_all add: no_digit_next_def list_all_iff)

lemma pattern_dropWhile:
  "list_all spec_digit ds \<Longrightarrow> no_digit_next rest \<Longrightarrow> dropWhile spec_digit (ds @ rest) = rest"
  by (cases rest) (simp_all add: no_digit_next_def list_all_iff)

lemma spec_digit_facts:
  "spec_digit c \<Longrightarrow> \<not> spec_white c \<and> c \<noteq> CHR ''-'' \<and> c \<noteq> CHR ''+''"
  using isdigit_not_isspace [of c] isdigit_not_sign [of c]
  by (simp add: isdigit_spec isspace_spec)

lemma sign_not_white: "\<not> spec_white (CHR ''-'')" "\<not> spec_white (CHR ''+'')"
  by (simp_all add: spec_white_def)

lemma spec_integer_text:
  assumes "number_text n" and "no_digit_next rest"
  shows "spec_integer (text_of n @ rest) = Some (value_of n, rest)"
proof -
  obtain ws sg ds where n: "n = (ws, sg, ds)" by (cases n)
  from assms(1) n have ws: "list_all spec_white ws" and sg: "sg = [] \<or> sg = ''+'' \<or> sg = ''-''"
    and ds: "ds \<noteq> []" "list_all spec_digit ds"
    by (simp_all add: number_text_def)
  from ds obtain c cs where c: "ds = c # cs" "spec_digit c" by (cases ds) auto
  note cf = spec_digit_facts [OF c(2)]
  have tw: "takeWhile spec_digit (ds @ rest) = ds" and dw: "dropWhile spec_digit (ds @ rest) = rest"
    using ds(2) assms(2) by (rule pattern_takeWhile pattern_dropWhile)+
  have skip: "dropWhile spec_white (ws @ x) = dropWhile spec_white x" for x
    using ws by (simp add: list_all_iff)
  from sg show ?thesis
  proof (elim disjE)
    assume "sg = []"
    moreover have "dropWhile spec_white (ds @ rest) = ds @ rest"
      using cf by (simp add: c(1))
    moreover have "take 1 (ds @ rest) = [c]" by (simp add: c(1))
    ultimately show ?thesis
      using tw dw ds(1) cf
      by (simp add: spec_integer_def n text_of_def value_of_def skip Let_def)
  next
    assume "sg = ''+''"
    then show ?thesis
      using tw dw ds(1)
      by (simp add: spec_integer_def n text_of_def value_of_def skip Let_def sign_not_white)
  next
    assume "sg = ''-''"
    then show ?thesis
      using tw dw ds(1)
      by (simp add: spec_integer_def n text_of_def value_of_def skip Let_def sign_not_white)
  qed
qed

lemma no_digit_next_Cons: "\<not> spec_digit c \<Longrightarrow> no_digit_next (c # s)"
  by (simp add: no_digit_next_def)

lemma seps_no_digit:
  "\<not> spec_digit (CHR ''/'')" "\<not> spec_digit (CHR ''-'')" "\<not> spec_digit (CHR '':'')"
  by (simp_all add: spec_digit_def)

lemma spec_sep_Cons: "spec_sep c (c # s) = Some s"
  by (simp add: spec_sep_def)

lemma spec_three_text:
  assumes "number_text n1" and "number_text n2" and "number_text n3" and "no_digit_next rest"
    and "\<not> spec_digit sep"
  shows "spec_three sep (text_of n1 @ sep # text_of n2 @ sep # text_of n3 @ rest)
    = Some (value_of n1, value_of n2, value_of n3, rest)"
  unfolding spec_three_def
  by (simp add: spec_integer_text assms no_digit_next_Cons spec_sep_Cons)

lemma spec_three_other:
  assumes "number_text n1" and "\<not> spec_digit sep" and "sep \<noteq> c"
  shows "spec_three c (text_of n1 @ sep # s) = None"
  unfolding spec_three_def
  by (simp add: spec_integer_text assms no_digit_next_Cons spec_sep_def)

lemma normalizeDate_text:
  assumes "number_text n1" and "number_text n2" and "number_text n3" and "no_digit_next rest"
    and "sep = CHR ''/'' \<or> sep = CHR ''-''"
  shows "normalizeDate (text_of n1 @ sep # text_of n2 @ sep # text_of n3 @ rest)
    = Some (take 31 (canonical_date (value_of n1) (value_of n2) (value_of n3)))"
proof -
  from assms(5) have sep: "\<not> spec_digit sep" by (auto simp: seps_no_digit)
  have "spec_date (text_of n1 @ sep # text_of n2 @ sep # text_of n3 @ rest)
    = Some (value_of n1, value_of n2, value_of n3)"
  proof (cases "sep = CHR ''/''")
    case True
    then show ?thesis
      using spec_three_text [OF assms(1-4) sep] by (simp add: spec_date_def)
  next
    case False
    with assms(5) have dash: "sep = CHR ''-''" by simp
    then have "spec_three (CHR ''/'') (text_of n1 @ sep # text_of n2 @ sep # text_of n3 @ rest)
        = None"
      using spec_three_other [OF assms(1) sep, of "CHR ''/''"] by simp
    then show ?thesis
      using spec_three_text [OF assms(1-4) sep] dash by (simp add: spec_date_def)
  qed
  then show ?thesis by (simp add: normalizeDate_spec)
qed

lemma spec_rcs_date_less:
  assumes "spec_rcs_date v = Some (y, m, d)"
  shows "y < 2 ^ 32 \<and> m < 2 ^ 32 \<and> d < 2 ^ 32"
proof -
  from assms obtain r where "spec_three (CHR ''/'') v = Some (y, m, d, r)"
    by (auto simp: spec_rcs_date_def split: bind_splits)
  then show ?thesis by (rule spec_three_less)
qed

lemma date2str_spec:
  "date2str (Some v) w =
     (case spec_date v of
        Some (y, m, d) \<Rightarrow>
          (Some Date2str_buf, w\<lparr>date2str_buf := take 31 (canonical_date y m d)\<rparr>)
      | None \<Rightarrow> (None, w\<lparr>stderr := stderr w @ [''malformed ISO-8601 date'']\<rparr>))"
proof (cases "spec_date v")
  case None
  then show ?thesis by (simp add: date2str_eq date_grammar_spec)
next
  case (Some a)
  obtain y m d where a: "a = (y, m, d)" by (cases a)
  from Some a have "spec_date v = Some (y, m, d)" by simp
  then have "y < 2 ^ 32 \<and> m < 2 ^ 32 \<and> d < 2 ^ 32"
    by (rule spec_date_less)
  then have "unat (of_nat y :: uint) = y" "unat (of_nat m :: uint) = m" "unat (of_nat d :: uint) = d"
    by (simp_all only: unat_of_nat_less)
  with Some a show ?thesis
    by (simp add: date2str_eq date_grammar_spec)
qed

lemma rcsdate2str_spec:
  "rcsdate2str (Some v) w =
     (if length v < 7 then (None, w\<lparr>stderr := stderr w @ [''malformed RCS date'']\<rparr>)
      else
        (case spec_rcs_date (drop 7 v) of
           Some (y, m, d) \<Rightarrow>
             (Some Rcsdate2str_buf, w\<lparr>rcsdate2str_buf := take 31 (canonical_date y m d)\<rparr>)
         | None \<Rightarrow> (None, w\<lparr>stderr := stderr w @ [''malformed RCS date'']\<rparr>)))"
proof (cases "spec_rcs_date (drop 7 v)")
  case None
  then have "six_uints (drop 7 v) = None"
    using six_uints_spec [of "drop 7 v"] by simp
  with None show ?thesis by (simp add: rcsdate2str_eq)
next
  case (Some a)
  obtain y m d where a: "a = (y, m, d)" by (cases a)
  from Some a have s: "spec_rcs_date (drop 7 v) = Some (y, m, d)" by simp
  then have "y < 2 ^ 32 \<and> m < 2 ^ 32 \<and> d < 2 ^ 32"
    by (rule spec_rcs_date_less)
  then have u: "unat (of_nat y :: uint) = y" "unat (of_nat m :: uint) = m"
    "unat (of_nat d :: uint) = d"
    by (simp_all only: unat_of_nat_less)
  from s obtain h mi sec where
    "six_uints (drop 7 v) = Some (of_nat y, of_nat m, of_nat d, h, mi, sec)"
    using six_uints_spec [of "drop 7 v"] by (cases "six_uints (drop 7 v)") auto
  with s u show ?thesis by (simp add: rcsdate2str_eq)
qed

lemma normalizeRcsDate_spec:
  "normalizeRcsDate v =
     (if length v < 7 then None
      else map_option (\<lambda>(y, m, d). take 31 (canonical_date y m d)) (spec_rcs_date (drop 7 v)))"
  by (simp add: normalizeRcsDate_def rcsdate2str_spec returned_def deref_def
      split: option.splits)

lemma length_dec_ge: "10 ^ k \<le> n \<Longrightarrow> k < length (dec n)"
proof (induction n arbitrary: k rule: dec.induct)
  case (1 n)
  show ?case
  proof (cases "n < 10")
    case True
    with "1.prems" have "(10::nat) ^ k < 10 ^ 1" by simp
    then have "k < 1" by (rule power_less_imp_less_exp [rotated]) simp
    then have "k = 0" by simp
    then show ?thesis using dec_not_Nil [of n] by (cases "dec n") simp_all
  next
    case False
    show ?thesis
    proof (cases k)
      case 0
      then show ?thesis using dec_not_Nil [of n] by (cases "dec n") simp_all
    next
      case (Suc j)
      with "1.prems" have "10 ^ j \<le> n div 10" by simp
      then have "j < length (dec (n div 10))" using "1.IH" False by simp
      with False Suc show ?thesis by (simp add: dec_big)
    qed
  qed
qed

lemma length_zero_pad2_ge: "10 ^ k \<le> n \<Longrightarrow> k < length (zero_pad2 n)"
  using length_dec_ge [of k n] by (simp add: zero_pad2_def)

lemma canonical_date_whole:
  assumes "y < 2 ^ 32" and "m < 2 ^ 32" and "d < 2 ^ 32"
  shows "(take 31 (canonical_date y m d) = canonical_date y m d)
     = (y < 10 ^ 9 \<or> m < 10 ^ 9 \<or> d < 10 ^ 9)"
proof (cases "y < 10 ^ 9 \<or> m < 10 ^ 9 \<or> d < 10 ^ 9")
  case True
  have "unat (of_nat y :: uint) = y" "unat (of_nat m :: uint) = m" "unat (of_nat d :: uint) = d"
    using assms by (simp_all only: unat_of_nat_less)
  then show ?thesis
    using canonical_date_fits [of "of_nat y" "of_nat m" "of_nat d"] True by simp
next
  case False
  then have "9 < length (dec y)" "9 < length (zero_pad2 m)" "9 < length (zero_pad2 d)"
    by (simp_all add: length_dec_ge length_zero_pad2_ge)
  then have "31 < length (canonical_date y m d)"
    by (simp add: canonical_date_def)
  then have "length (take 31 (canonical_date y m d)) \<noteq> length (canonical_date y m d)"
    by simp
  then have "take 31 (canonical_date y m d) \<noteq> canonical_date y m d"
    by metis
  with False show ?thesis by simp
qed

lemma number_text_not_Nil: "number_text n \<Longrightarrow> text_of n \<noteq> []"
  by (cases n) (simp add: number_text_def text_of_def)

lemma no_digit_next_append: "s \<noteq> [] \<Longrightarrow> no_digit_next (s @ t) = no_digit_next s"
  by (cases s) (simp_all add: no_digit_next_def)

lemma spec_rcs_date_text:
  assumes "number_text n1" and "number_text n2" and "number_text n3"
    and "number_text n4" and "number_text n5" and "number_text n6"
    and "no_digit_next (text_of n4)" and "no_digit_next rest"
  shows "spec_rcs_date (text_of n1 @ CHR ''/'' # text_of n2 @ CHR ''/'' # text_of n3
      @ text_of n4 @ CHR '':'' # text_of n5 @ CHR '':'' # text_of n6 @ rest)
    = Some (value_of n1, value_of n2, value_of n3)"
proof -
  have "no_digit_next (text_of n4 @ CHR '':'' # text_of n5 @ CHR '':'' # text_of n6 @ rest)"
    using assms(4,7) by (simp add: no_digit_next_append number_text_not_Nil)
  then show ?thesis
    using spec_three_text [OF assms(1-3) _ seps_no_digit(1)]
      spec_three_text [OF assms(4-6) assms(8) seps_no_digit(3)]
    by (simp add: spec_rcs_date_def)
qed

lemma normalizeRcsDate_text:
  assumes "number_text n1" and "number_text n2" and "number_text n3"
    and "number_text n4" and "number_text n5" and "number_text n6"
    and "no_digit_next (text_of n4)" and "no_digit_next rest" and "length pre = 7"
  shows "normalizeRcsDate (pre @ text_of n1 @ CHR ''/'' # text_of n2 @ CHR ''/'' # text_of n3
      @ text_of n4 @ CHR '':'' # text_of n5 @ CHR '':'' # text_of n6 @ rest)
    = Some (take 31 (canonical_date (value_of n1) (value_of n2) (value_of n3)))"
  using spec_rcs_date_text [OF assms(1-8)] assms(9)
  by (simp add: normalizeRcsDate_spec)

lemma no_digit_next_dropWhile: "no_digit_next (dropWhile spec_digit u)"
proof (cases "dropWhile spec_digit u")
  case Nil
  show ?thesis unfolding no_digit_next_def Nil by simp
next
  case (Cons c cs)
  then have "\<not> spec_digit c"
    using hd_dropWhile [of spec_digit u] by simp
  then show ?thesis unfolding no_digit_next_def Cons by simp
qed

lemma take_1_cases: "take 1 t = [c] \<Longrightarrow> t = c # drop 1 t"
  by (cases t) simp_all

lemma spec_integer_SomeD:
  assumes "spec_integer s = Some (k, r)"
  shows "\<exists>n. number_text n \<and> s = text_of n @ r \<and> no_digit_next r \<and> k = value_of n"
proof -
  define ws where "ws = takeWhile spec_white s"
  define t where "t = dropWhile spec_white s"
  define sg where "sg = (if take 1 t = ''-'' \<or> take 1 t = ''+'' then take 1 t else [])"
  define u where "u = (if take 1 t = ''-'' \<or> take 1 t = ''+'' then drop 1 t else t)"
  define ds where "ds = takeWhile spec_digit u"
  have s: "s = ws @ t" by (simp add: ws_def t_def)
  have t: "t = sg @ u" by (auto simp: sg_def u_def dest: take_1_cases)
  have "(if ds = [] then None
      else Some (spec_stored (take 1 t = ''-'') (spec_decimal ds), dropWhile spec_digit u))
    = Some (k, r)"
    using assms unfolding spec_integer_def Let_def t_def u_def ds_def .
  then have ds: "ds \<noteq> []" and r: "r = dropWhile spec_digit u"
    and k: "k = spec_stored (take 1 t = ''-'') (spec_decimal ds)"
    by (simp_all split: if_splits)
  have u: "u = ds @ r" by (simp add: ds_def r)
  have sgm: "(take 1 t = ''-'') = (sg = ''-'')" by (auto simp: sg_def)
  have "list_all spec_white ws" and "list_all spec_digit ds"
    by (auto simp: ws_def ds_def list_all_iff dest: set_takeWhileD)
  moreover have "sg = [] \<or> sg = ''+'' \<or> sg = ''-''" by (auto simp: sg_def)
  ultimately have "number_text (ws, sg, ds)"
    using ds by (simp add: number_text_def)
  moreover have "s = text_of (ws, sg, ds) @ r" using s t u by (simp add: text_of_def)
  moreover have "no_digit_next r" unfolding r by (rule no_digit_next_dropWhile)
  moreover have "k = value_of (ws, sg, ds)" using k sgm by (simp add: value_of_def)
  ultimately show ?thesis by blast
qed

lemma spec_sep_SomeD: "spec_sep c s = Some r \<Longrightarrow> s = c # r"
  by (cases s) (simp_all add: spec_sep_def split: if_splits)

lemma spec_three_SomeD:
  assumes "spec_three sep v = Some (y, m, d, r)"
  shows "\<exists>n1 n2 n3. number_text n1 \<and> number_text n2 \<and> number_text n3 \<and> no_digit_next r
    \<and> v = text_of n1 @ sep # text_of n2 @ sep # text_of n3 @ r
    \<and> y = value_of n1 \<and> m = value_of n2 \<and> d = value_of n3"
proof -
  from assms obtain r1 s1 r2 s2 where a: "spec_integer v = Some (y, r1)"
    "spec_sep sep r1 = Some s1" "spec_integer s1 = Some (m, r2)"
    "spec_sep sep r2 = Some s2" "spec_integer s2 = Some (d, r)"
    by (auto simp: spec_three_def split: bind_splits)
  from a(1) obtain n1 where n1: "number_text n1" "v = text_of n1 @ r1" "y = value_of n1"
    by (blast dest: spec_integer_SomeD)
  from a(3) obtain n2 where n2: "number_text n2" "s1 = text_of n2 @ r2" "m = value_of n2"
    by (blast dest: spec_integer_SomeD)
  from a(5) obtain n3 where n3: "number_text n3" "s2 = text_of n3 @ r" "d = value_of n3"
    "no_digit_next r"
    by (blast dest: spec_integer_SomeD)
  have "v = text_of n1 @ sep # text_of n2 @ sep # text_of n3 @ r"
    using n1(2) n2(2) n3(2) spec_sep_SomeD [OF a(2)] spec_sep_SomeD [OF a(4)] by simp
  with n1 n2 n3 show ?thesis by blast
qed

lemma spec_date_text:
  assumes "number_text n1" and "number_text n2" and "number_text n3" and "no_digit_next rest"
    and "sep = CHR ''/'' \<or> sep = CHR ''-''"
  shows "spec_date (text_of n1 @ sep # text_of n2 @ sep # text_of n3 @ rest)
    = Some (value_of n1, value_of n2, value_of n3)"
proof -
  from assms(5) have sep: "\<not> spec_digit sep" by (auto simp: seps_no_digit)
  show ?thesis
  proof (cases "sep = CHR ''/''")
    case True
    then show ?thesis
      using spec_three_text [OF assms(1-4) sep] by (simp add: spec_date_def)
  next
    case False
    with assms(5) have dash: "sep = CHR ''-''" by simp
    then have "spec_three (CHR ''/'') (text_of n1 @ sep # text_of n2 @ sep # text_of n3 @ rest)
        = None"
      using spec_three_other [OF assms(1) sep, of "CHR ''/''"] by simp
    then show ?thesis
      using spec_three_text [OF assms(1-4) sep] dash by (simp add: spec_date_def)
  qed
qed

lemma spec_date_iff: "(spec_date v = Some k) = date_text v k"
proof
  assume a: "spec_date v = Some k"
  obtain y m d where k: "k = (y, m, d)" by (cases k)
  from a k obtain sep r where "sep = CHR ''/'' \<or> sep = CHR ''-''"
    "spec_three sep v = Some (y, m, d, r)"
    by (auto simp: spec_date_def split: option.splits)
  then show "date_text v k"
    unfolding date_text_def k by (blast dest: spec_three_SomeD)
next
  assume "date_text v k"
  then show "spec_date v = Some k"
    unfolding date_text_def using spec_date_text by blast
qed

lemma spec_rcs_date_iff: "(spec_rcs_date v = Some k) = rcs_date_text v k"
proof
  assume a: "spec_rcs_date v = Some k"
  obtain y m d where k: "k = (y, m, d)" by (cases k)
  from a k obtain r3 h mi sec r6 where b: "spec_three (CHR ''/'') v = Some (y, m, d, r3)"
    "spec_three (CHR '':'') r3 = Some (h, mi, sec, r6)"
    by (auto simp: spec_rcs_date_def split: bind_splits)
  from b(1) obtain n1 n2 n3 where c: "number_text n1" "number_text n2" "number_text n3"
    "no_digit_next r3" "v = text_of n1 @ CHR ''/'' # text_of n2 @ CHR ''/'' # text_of n3 @ r3"
    "y = value_of n1" "m = value_of n2" "d = value_of n3"
    by (blast dest: spec_three_SomeD)
  from b(2) obtain n4 n5 n6 where d: "number_text n4" "number_text n5" "number_text n6"
    "no_digit_next r6" "r3 = text_of n4 @ CHR '':'' # text_of n5 @ CHR '':'' # text_of n6 @ r6"
    by (blast dest: spec_three_SomeD)
  from c(4) d(1,5) have e: "no_digit_next (text_of n4)"
    by (simp add: no_digit_next_append number_text_not_Nil)
  have "v = text_of n1 @ CHR ''/'' # text_of n2 @ CHR ''/'' # text_of n3
              @ text_of n4 @ CHR '':'' # text_of n5 @ CHR '':'' # text_of n6 @ r6"
    using c(5) d(5) by simp
  with c d e show "rcs_date_text v k"
    unfolding rcs_date_text_def k by blast
next
  assume "rcs_date_text v k"
  then show "spec_rcs_date v = Some k"
    unfolding rcs_date_text_def using spec_rcs_date_text by blast
qed

lemma list_all_spec_digit_dec: "list_all spec_digit (dec n)"
  using list_all_isdigit_dec [of n] by (simp add: isdigit_eq)

lemma spec_decimal_dec: "spec_decimal (dec n) = n"
  using digits_val_spec [OF list_all_spec_digit_dec, of n] by (simp add: digits_val_dec)

lemma number_text_dec: "number_text ([], [], dec n)"
  by (simp add: number_text_def dec_not_Nil list_all_spec_digit_dec)

lemma value_of_less: "value_of n < 2 ^ 32"
  using spec_stored_less by (cases n) (simp add: value_of_def)

lemma value_of_dec_mod: "n < 2 ^ 64 \<Longrightarrow> value_of ([], [], dec n) = n mod 2 ^ 32"
  by (simp add: value_of_def spec_decimal_dec spec_stored_def)

lemma normalizeDate_dec_mod:
  assumes "y < 2 ^ 64" and "m < 2 ^ 64" and "d < 2 ^ 64" and "no_digit_next rest"
    and "sep = CHR ''/'' \<or> sep = CHR ''-''"
  shows "normalizeDate (dec y @ sep # dec m @ sep # dec d @ rest)
    = Some (take 31 (canonical_date (y mod 2 ^ 32) (m mod 2 ^ 32) (d mod 2 ^ 32)))"
proof -
  have "value_of ([], [], dec y) = y mod 2 ^ 32" "value_of ([], [], dec m) = m mod 2 ^ 32"
    "value_of ([], [], dec d) = d mod 2 ^ 32"
    using assms(1-3) by (simp_all only: value_of_dec_mod)
  then show ?thesis
    using normalizeDate_text [OF number_text_dec number_text_dec number_text_dec assms(4,5),
        of y m d]
    by (simp add: text_of_def)
qed

section \<open>The error table\<close>

text \<open>
  C9, as the code has it: \<open>lowdown_errstr\<close> is an indexed lookup into the table of two
  strings with no bounds check. For the codes 0 and 1 it returns the string of that error;
  for every other code it reads outside the table and no result is defined.
\<close>

theorem lowdown_errstr_unchecked:
  "lowdown_errstr err =
     (if err = 0 then Inr ''space before link (CommonMark violation)''
      else if err = 1 then Inr ''bad character in metadata key (MultiMarkdown violation)''
      else Inl Out_of_bounds_read)"
proof -
  consider "err = 0" | "err = 1" | "err < 0 \<or> 2 \<le> err"
    by linarith
  then show ?thesis
    by cases (auto simp: lowdown_errstr_def LOWDOWN_ERR__MAX_def errs_def)
qed

theorem lowdown_errstr_unchecked_witness:
  "lowdown_errstr 0 = Inr ''space before link (CommonMark violation)''
   \<and> lowdown_errstr 1 = Inr ''bad character in metadata key (MultiMarkdown violation)''
   \<and> lowdown_errstr (- 1) = Inl Out_of_bounds_read"
  using lowdown_errstr_unchecked [of 0] lowdown_errstr_unchecked [of 1]
    lowdown_errstr_unchecked [of "- 1"]
  by simp

text \<open>C9 as the claim states it fails: the code 2, the first one out of range, gets no
  string.\<close>

theorem lowdown_errstr_out_of_range: "lowdown_errstr 2 = Inl Out_of_bounds_read"
  by (simp add: lowdown_errstr_def LOWDOWN_ERR__MAX_def)

section \<open>The pipeline\<close>

text \<open>
  C4: \<open>lowdown_buf\<close> returns one byte sequence and the metadata of the parser. The
  metadata is what \<open>hdoc_render\<close> produced, in every case. When the substitution flag is
  not set, or there are no options, the bytes are the body \<open>hdoc_render\<close> produced,
  unchanged; when it is set they are the substitution pass of the output type (HTML or
  roff) applied to that body.
\<close>

theorem lowdown_buf_result:
  "snd (lowdown_buf x opts data) = snd (hdoc_render x (new_document opts) data)
   \<and> fst (lowdown_buf x opts data) =
     (if smarty_set x opts
      then substitution x opts (fst (hdoc_render x (new_document opts) data))
      else fst (hdoc_render x (new_document opts) data))"
  by (simp add: lowdown_buf_def smarty_set_def substitution_def
      split: prod.splits option.splits)

theorem lowdown_buf_result_witness:
  "lowdown_buf
     \<lparr>hdoc_render = (\<lambda>d s. (''<p>'' @ s, [\<lparr>key = ''title'', val = ''T''\<rparr>])),
      hsmrt_html = (\<lambda>s. ''H'' @ s), hsmrt_nroff = (\<lambda>s. ''N'' @ s),
      LOWDOWN_SMARTY = 64\<rparr>
     None ''x''
     = (''<p>x'', [\<lparr>key = ''title'', val = ''T''\<rparr>])
   \<and> lowdown_buf
     \<lparr>hdoc_render = (\<lambda>d s. (''<p>'' @ s, [\<lparr>key = ''title'', val = ''T''\<rparr>])),
      hsmrt_html = (\<lambda>s. ''H'' @ s), hsmrt_nroff = (\<lambda>s. ''N'' @ s),
      LOWDOWN_SMARTY = 64\<rparr>
     (Some \<lparr>type = LOWDOWN_MAN, feat = 0, oflags = 64\<rparr>) ''x''
     = (''N<p>x'', [\<lparr>key = ''title'', val = ''T''\<rparr>])
   \<and> lowdown_buf
     \<lparr>hdoc_render = (\<lambda>d s. (''<p>'' @ s, [\<lparr>key = ''title'', val = ''T''\<rparr>])),
      hsmrt_html = (\<lambda>s. ''H'' @ s), hsmrt_nroff = (\<lambda>s. ''N'' @ s),
      LOWDOWN_SMARTY = 64\<rparr>
     (Some \<lparr>type = LOWDOWN_HTML, feat = 0, oflags = 65\<rparr>) ''x''
     = (''H<p>x'', [\<lparr>key = ''title'', val = ''T''\<rparr>])
   \<and> lowdown_buf
     \<lparr>hdoc_render = (\<lambda>d s. (''<p>'' @ s, [\<lparr>key = ''title'', val = ''T''\<rparr>])),
      hsmrt_html = (\<lambda>s. ''H'' @ s), hsmrt_nroff = (\<lambda>s. ''N'' @ s),
      LOWDOWN_SMARTY = 64\<rparr>
     (Some \<lparr>type = LOWDOWN_HTML, feat = 0, oflags = 1\<rparr>) ''x''
     = (''<p>x'', [\<lparr>key = ''title'', val = ''T''\<rparr>])"
  using
    lowdown_buf_result [of
      "\<lparr>hdoc_render = (\<lambda>d s. (''<p>'' @ s, [\<lparr>key = ''title'', val = ''T''\<rparr>])),
        hsmrt_html = (\<lambda>s. ''H'' @ s), hsmrt_nroff = (\<lambda>s. ''N'' @ s),
        LOWDOWN_SMARTY = 64\<rparr>"
      None "''x''"]
    lowdown_buf_result [of
      "\<lparr>hdoc_render = (\<lambda>d s. (''<p>'' @ s, [\<lparr>key = ''title'', val = ''T''\<rparr>])),
        hsmrt_html = (\<lambda>s. ''H'' @ s), hsmrt_nroff = (\<lambda>s. ''N'' @ s),
        LOWDOWN_SMARTY = 64\<rparr>"
      "Some \<lparr>type = LOWDOWN_MAN, feat = 0, oflags = 64\<rparr>" "''x''"]
    lowdown_buf_result [of
      "\<lparr>hdoc_render = (\<lambda>d s. (''<p>'' @ s, [\<lparr>key = ''title'', val = ''T''\<rparr>])),
        hsmrt_html = (\<lambda>s. ''H'' @ s), hsmrt_nroff = (\<lambda>s. ''N'' @ s),
        LOWDOWN_SMARTY = 64\<rparr>"
      "Some \<lparr>type = LOWDOWN_HTML, feat = 0, oflags = 65\<rparr>" "''x''"]
    lowdown_buf_result [of
      "\<lparr>hdoc_render = (\<lambda>d s. (''<p>'' @ s, [\<lparr>key = ''title'', val = ''T''\<rparr>])),
        hsmrt_html = (\<lambda>s. ''H'' @ s), hsmrt_nroff = (\<lambda>s. ''N'' @ s),
        LOWDOWN_SMARTY = 64\<rparr>"
      "Some \<lparr>type = LOWDOWN_HTML, feat = 0, oflags = 1\<rparr>" "''x''"]
  by (simp add: smarty_set_def substitution_def prod_eq_iff)

text \<open>
  C8: \<open>lowdown_file\<close> drains the stream, however long it is. When reading failed it
  returns 0 and assigns neither the output nor the metadata; otherwise it returns 1 with
  the result of \<open>lowdown_buf\<close> on all the bytes read. It returns 0 in no other case.
\<close>

theorem lowdown_file_result:
  "lowdown_file x opts fin =
     (if read_error fin then (0, None)
      else (1, Some (lowdown_buf x opts (bytes fin))))
   \<and> (fst (lowdown_file x opts fin) = 0 \<longleftrightarrow> read_error fin)
   \<and> (snd (lowdown_file x opts fin) = None \<longleftrightarrow> read_error fin)"
  by (simp add: lowdown_file_def hbuf_putf_def)

theorem lowdown_file_result_witness:
  "lowdown_file
     \<lparr>hdoc_render = (\<lambda>d s. (''<p>'' @ s, [])),
      hsmrt_html = (\<lambda>s. ''H'' @ s), hsmrt_nroff = (\<lambda>s. ''N'' @ s),
      LOWDOWN_SMARTY = 64\<rparr>
     None \<lparr>bytes = ''abc'', read_error = True\<rparr>
     = (0, None)
   \<and> lowdown_file
     \<lparr>hdoc_render = (\<lambda>d s. (''<p>'' @ s, [])),
      hsmrt_html = (\<lambda>s. ''H'' @ s), hsmrt_nroff = (\<lambda>s. ''N'' @ s),
      LOWDOWN_SMARTY = 64\<rparr>
     None \<lparr>bytes = ''abc'', read_error = False\<rparr>
     = (1, Some (''<p>abc'', []))"
  using
    lowdown_file_result [of
      "\<lparr>hdoc_render = (\<lambda>d s. (''<p>'' @ s, [])),
        hsmrt_html = (\<lambda>s. ''H'' @ s), hsmrt_nroff = (\<lambda>s. ''N'' @ s),
        LOWDOWN_SMARTY = 64\<rparr>"
      None "\<lparr>bytes = ''abc'', read_error = True\<rparr>"]
    lowdown_file_result [of
      "\<lparr>hdoc_render = (\<lambda>d s. (''<p>'' @ s, [])),
        hsmrt_html = (\<lambda>s. ''H'' @ s), hsmrt_nroff = (\<lambda>s. ''N'' @ s),
        LOWDOWN_SMARTY = 64\<rparr>"
      None "\<lparr>bytes = ''abc'', read_error = False\<rparr>"]
  by (simp add: lowdown_buf_def)

section \<open>Absent options in the standalone wrapper\<close>

text \<open>
  C2 fails on the code: \<open>lowdown_standalone_open\<close> and \<open>lowdown_standalone_close\<close>
  read \<open>opts->type\<close> without testing \<open>opts\<close>, unlike \<open>lowdown_buf\<close>. With no options
  both dereference a null pointer, whatever the metadata.
\<close>

theorem standalone_null_opts:
  "lowdown_standalone_open None m now w = Inl Null_dereference
   \<and> lowdown_standalone_close None = Inl Null_dereference"
  by (simp add: lowdown_standalone_open_def lowdown_standalone_close_def split: prod.splits)

section \<open>Escaping\<close>

text \<open>
  C3, as the code has it: the title written into the HTML head is the title without its
  leading white space, with \<open><\<close> replaced by \<open>&lt;\<close>, \<open>>\<close> by \<open>&gt;\<close> and every
  white-space character by one space (a run of \<open>n\<close> of them gives \<open>n\<close> spaces); every
  other character, \<open>&\<close> and the double quote included, is copied. This is the title
  between \<open><title>\<close> and \<open></title>\<close> in the HTML output of \<open>lowdown_standalone_open\<close>.
\<close>

theorem html_title_escape:
  "html_title op title =
     op @ concat (map (\<lambda>c. if c = CHR ''<'' then ''&lt;'' else if c = CHR ''>'' then ''&gt;''
                           else if isspace c then '' '' else [c])
                   (dropWhile isspace title))
   \<and> open_output LOWDOWN_HTML (title, author, date) =
       html_head @ html_title [] title @ ''</title>\<newline></head>\<newline><body>\<newline>''"
  by (simp add: html_title_def title_loop_concat open_output_def)

theorem html_title_escape_witness:
  "html_title [] ''  <Hi> '' = ''&lt;Hi&gt; ''
   \<and> html_title [] (''He said '' @ [dq] @ ''hi'' @ [dq] @ '' & left'')
       = ''He said '' @ [dq] @ ''hi'' @ [dq] @ '' & left''
   \<and> html_title [] ''a  b'' = ''a  b''"
  using html_title_escape [of "[]" "''  <Hi> ''"]
    html_title_escape [of "[]" "''He said '' @ [dq] @ ''hi'' @ [dq] @ '' & left''"]
    html_title_escape [of "[]" "''a  b''"]
  by (simp add: isspace_def)

text \<open>C3 as the claim states it fails: two spaces inside a title stay two spaces, where
  a run mapped to a single space would leave one.\<close>

theorem html_title_keeps_runs:
  "html_title [] ''a  b'' = ''a  b'' \<and> spec_title_escape ''a  b'' = ''a b''"
  by (simp add: html_title_def spec_title_escape_def isspace_def)

text \<open>
  C7: \<open>serialise_roff\<close> skips leading white space; in block mode it writes the zero-width
  escape \<open>\&\<close> when the first character left is a full stop; then it writes, for each
  character, \<open>\e\<close> for a backslash, \<open>\(dq\<close> for a double quote outside block mode, one
  space for a white-space character and the character itself otherwise; in block mode it
  ends with a newline.
\<close>

theorem serialise_roff_escape:
  "serialise_roff op v block =
     op @ (if block \<and> take 1 (dropWhile isspace v) = ''.'' then [bs, CHR ''&''] else [])
       @ concat (map (\<lambda>c. if c = bs then [bs, CHR ''e'']
                           else if \<not> block \<and> c = dq then [bs, CHR ''('', CHR ''d'', CHR ''q'']
                           else if isspace c then '' '' else [c])
                   (dropWhile isspace v))
       @ (if block then ''\<newline>'' else [])"
proof -
  define v1 where "v1 = dropWhile isspace v"
  have "(case v1 of [] \<Rightarrow> False | c # _ \<Rightarrow> c = CHR ''.'') = (take 1 v1 = ''.'')"
    by (cases v1) simp_all
  then show ?thesis
    unfolding serialise_roff_def Let_def roff_loop_concat v1_def [symmetric] by simp
qed

theorem serialise_roff_escape_witness:
  "serialise_roff [] (''.foo'' @ [bs] @ ''bar'') True
     = [bs, CHR ''&''] @ ''.foo'' @ [bs, CHR ''e''] @ ''bar'' @ ''\<newline>''
   \<and> serialise_roff [] ('' say '' @ [dq] @ ''a b'' @ [dq]) False
     = ''say '' @ [bs, CHR ''('', CHR ''d'', CHR ''q''] @ ''a b'' @ [bs, CHR ''('', CHR ''d'', CHR ''q'']
   \<and> serialise_roff [] ('' say '' @ [dq] @ ''a b'' @ [dq]) True
     = ''say '' @ [dq] @ ''a b'' @ [dq] @ ''\<newline>''"
  using serialise_roff_escape [of "[]" "''.foo'' @ [bs] @ ''bar''" True]
    serialise_roff_escape [of "[]" "'' say '' @ [dq] @ ''a b'' @ [dq]" False]
    serialise_roff_escape [of "[]" "'' say '' @ [dq] @ ''a b'' @ [dq]" True]
  by (simp add: isspace_def)

section \<open>Date normalization\<close>

lemmas spec_eval =
  spec_date_def spec_rcs_date_def spec_three_def spec_integer_def spec_sep_def
  spec_white_def spec_digit_def spec_decimal_def spec_stored_def Let_def

lemmas claimed_eval =
  claimed_normalizeDate_def claimed_normalizeRcsDate_def claimed_three_def claimed_uint_def

text \<open>
  C5, as the code has it: \<open>date2str\<close> reads three integers with \<open>/\<close> after the first and
  after the second and, when that fails, three integers with \<open>-\<close> after the first and after
  the second. An integer is read as \<open>%u\<close> reads it: white space is skipped, a \<open>+\<close> or a
  \<open>-\<close> may come next, then come digits, at least one and as many as there are; what is
  stored is the decimal value of the digits modulo \<open>2^32\<close>, negated modulo \<open>2^32\<close> after a
  \<open>-\<close>, and 4294967295 once the digits amount to \<open>2^64\<close> or more. A separator is the
  character right after the digits, and what follows the digits of the third integer is
  not read. When neither reading gives three integers the function warns and returns
  \<open>NULL\<close>. Otherwise it returns its buffer, which holds the first 31 characters of the
  canonical date of the three values stored: the year unpadded, then month and day with at
  least two digits. The three values are below \<open>2^32\<close>, and the 31 characters are the
  whole canonical date unless year, month and day all have ten digits.
\<close>

theorem date2str_result:
  "date2str (Some v) w =
     (case spec_date v of
        Some (y, m, d) \<Rightarrow>
          (Some Date2str_buf, w\<lparr>date2str_buf := take 31 (canonical_date y m d)\<rparr>)
      | None \<Rightarrow> (None, w\<lparr>stderr := stderr w @ [''malformed ISO-8601 date'']\<rparr>))
   \<and> ((spec_date v = Some k) = date_text v k)
   \<and> (date_text v (y0, m0, d0) \<longrightarrow>
        y0 < 2 ^ 32 \<and> m0 < 2 ^ 32 \<and> d0 < 2 ^ 32
        \<and> (take 31 (canonical_date y0 m0 d0) = canonical_date y0 m0 d0)
            = (y0 < 10 ^ 9 \<or> m0 < 10 ^ 9 \<or> d0 < 10 ^ 9))"
proof -
  have "date_text v (y0, m0, d0) \<longrightarrow>
        y0 < 2 ^ 32 \<and> m0 < 2 ^ 32 \<and> d0 < 2 ^ 32
        \<and> (take 31 (canonical_date y0 m0 d0) = canonical_date y0 m0 d0)
            = (y0 < 10 ^ 9 \<or> m0 < 10 ^ 9 \<or> d0 < 10 ^ 9)"
  proof
    assume "date_text v (y0, m0, d0)"
    then have "spec_date v = Some (y0, m0, d0)" by (simp only: spec_date_iff)
    then have a: "y0 < 2 ^ 32 \<and> m0 < 2 ^ 32 \<and> d0 < 2 ^ 32" by (rule spec_date_less)
    then have "(take 31 (canonical_date y0 m0 d0) = canonical_date y0 m0 d0)
            = (y0 < 10 ^ 9 \<or> m0 < 10 ^ 9 \<or> d0 < 10 ^ 9)"
      using canonical_date_whole [of y0 m0 d0] by blast
    with a show "y0 < 2 ^ 32 \<and> m0 < 2 ^ 32 \<and> d0 < 2 ^ 32
        \<and> (take 31 (canonical_date y0 m0 d0) = canonical_date y0 m0 d0)
            = (y0 < 10 ^ 9 \<or> m0 < 10 ^ 9 \<or> d0 < 10 ^ 9)" by blast
  qed
  then show ?thesis
    using date2str_spec [of v w] spec_date_iff [of v k] by blast
qed

theorem date2str_result_witness:
  "date2str (Some ''2021/3/5'') world0
     = (Some Date2str_buf, world0\<lparr>date2str_buf := ''2021-03-05''\<rparr>)
   \<and> date2str (Some ''2021-3-5'') world0
     = (Some Date2str_buf, world0\<lparr>date2str_buf := ''2021-03-05''\<rparr>)
   \<and> date2str (Some ''not-a-date'') world0
     = (None, world0\<lparr>stderr := [''malformed ISO-8601 date'']\<rparr>)
   \<and> date2str (Some '' 2021/ 3/ +5'') world0
     = (Some Date2str_buf, world0\<lparr>date2str_buf := ''2021-03-05''\<rparr>)
   \<and> date2str (Some ''2021 /3/5'') world0
     = (None, world0\<lparr>stderr := [''malformed ISO-8601 date'']\<rparr>)
   \<and> date2str (Some ''2021/3-5'') world0
     = (None, world0\<lparr>stderr := [''malformed ISO-8601 date'']\<rparr>)
   \<and> date2str (Some ''-1/-1/-1'') world0
     = (Some Date2str_buf, world0\<lparr>date2str_buf := ''4294967295-4294967295-429496729''\<rparr>)
   \<and> date2str (Some ''4294967296/4294967296/4294967296'') world0
     = (Some Date2str_buf, world0\<lparr>date2str_buf := ''0-00-00''\<rparr>)
   \<and> date2str (Some ''4294967296/1/1'') world0
     = (Some Date2str_buf, world0\<lparr>date2str_buf := ''0-01-01''\<rparr>)
   \<and> date2str (Some ''18446744073709551616/1/1'') world0
     = (Some Date2str_buf, world0\<lparr>date2str_buf := ''4294967295-01-01''\<rparr>)
   \<and> date_text ''2021/3/5'' (2021, 3, 5)
   \<and> take 31 (canonical_date 2021 3 5) = canonical_date 2021 3 5"
  using date2str_result [of "''2021/3/5''" world0 "(2021, 3, 5)" 2021 3 5]
    date2str_result [of "''2021-3-5''" world0 "(2021, 3, 5)" 2021 3 5]
    date2str_result [of "''not-a-date''" world0 "(2021, 3, 5)" 2021 3 5]
    date2str_result [of "'' 2021/ 3/ +5''" world0 "(2021, 3, 5)" 2021 3 5]
    date2str_result [of "''2021 /3/5''" world0 "(2021, 3, 5)" 2021 3 5]
    date2str_result [of "''2021/3-5''" world0 "(2021, 3, 5)" 2021 3 5]
    date2str_result [of "''-1/-1/-1''" world0 "(2021, 3, 5)" 2021 3 5]
    date2str_result [of "''4294967296/4294967296/4294967296''" world0 "(2021, 3, 5)" 2021 3 5]
    date2str_result [of "''4294967296/1/1''" world0 "(2021, 3, 5)" 2021 3 5]
    date2str_result [of "''18446744073709551616/1/1''" world0 "(2021, 3, 5)" 2021 3 5]
  by (simp add: spec_eval canonical_eval world0_def)

text \<open>C5 as the claim states it fails on three counts. With ten digits in each of the three
  numbers, the string returned lacks the last digit of the canonical date. A number of
  \<open>2^32\<close> or more is not formatted but its remainder modulo \<open>2^32\<close> is. And a number with a
  sign, which is no unsigned integer, is read.\<close>

theorem date2str_not_claimed:
  "date2str (Some ''4000000000/4000000000/4000000000'') world0
     = (Some Date2str_buf, world0\<lparr>date2str_buf := ''4000000000-4000000000-400000000''\<rparr>)
   \<and> claimed_normalizeDate ''4000000000/4000000000/4000000000''
     = Some ''4000000000-4000000000-4000000000''
   \<and> date2str (Some ''4294967296/4294967296/4294967296'') world0
     = (Some Date2str_buf, world0\<lparr>date2str_buf := ''0-00-00''\<rparr>)
   \<and> claimed_normalizeDate ''4294967296/4294967296/4294967296''
     = Some ''4294967296-4294967296-4294967296''
   \<and> date2str (Some ''-1/-1/-1'') world0
     = (Some Date2str_buf, world0\<lparr>date2str_buf := ''4294967295-4294967295-429496729''\<rparr>)
   \<and> claimed_normalizeDate ''-1/-1/-1'' = None"
  by (simp add: date2str_spec spec_eval claimed_eval canonical_eval)

text \<open>
  C6, as the code has it: \<open>rcsdate2str\<close> warns and returns \<open>NULL\<close> for a string of fewer
  than 7 characters. Otherwise it skips 7 characters, whatever they are, and reads six
  integers, each as \<open>%u\<close> reads it (white space, a sign, digits; the value stored modulo
  \<open>2^32\<close>): three with \<open>/\<close> after the first and after the second, then three with \<open>:\<close>
  after the first and after the second. Nothing but the white space and the sign of the
  fourth integer stands between the digits of the third and the digits of the fourth, and
  what follows the digits of the sixth is not read. When it does not get all six it warns
  and returns \<open>NULL\<close>; when it does, it returns its buffer, which holds the first 31
  characters of the canonical date of the first three values stored, and nothing of the
  other three. The three values are below \<open>2^32\<close>, and the 31 characters are the whole
  canonical date unless year, month and day all have ten digits.
\<close>

theorem rcsdate2str_result:
  "rcsdate2str (Some v) w =
     (if length v < 7 then (None, w\<lparr>stderr := stderr w @ [''malformed RCS date'']\<rparr>)
      else
        (case spec_rcs_date (drop 7 v) of
           Some (y, m, d) \<Rightarrow>
             (Some Rcsdate2str_buf, w\<lparr>rcsdate2str_buf := take 31 (canonical_date y m d)\<rparr>)
         | None \<Rightarrow> (None, w\<lparr>stderr := stderr w @ [''malformed RCS date'']\<rparr>)))
   \<and> ((spec_rcs_date u = Some k) = rcs_date_text u k)
   \<and> (rcs_date_text u (y0, m0, d0) \<longrightarrow>
        y0 < 2 ^ 32 \<and> m0 < 2 ^ 32 \<and> d0 < 2 ^ 32
        \<and> (take 31 (canonical_date y0 m0 d0) = canonical_date y0 m0 d0)
            = (y0 < 10 ^ 9 \<or> m0 < 10 ^ 9 \<or> d0 < 10 ^ 9))"
proof -
  have "rcs_date_text u (y0, m0, d0) \<longrightarrow>
        y0 < 2 ^ 32 \<and> m0 < 2 ^ 32 \<and> d0 < 2 ^ 32
        \<and> (take 31 (canonical_date y0 m0 d0) = canonical_date y0 m0 d0)
            = (y0 < 10 ^ 9 \<or> m0 < 10 ^ 9 \<or> d0 < 10 ^ 9)"
  proof
    assume "rcs_date_text u (y0, m0, d0)"
    then have "spec_rcs_date u = Some (y0, m0, d0)" by (simp only: spec_rcs_date_iff)
    then have a: "y0 < 2 ^ 32 \<and> m0 < 2 ^ 32 \<and> d0 < 2 ^ 32" by (rule spec_rcs_date_less)
    then have "(take 31 (canonical_date y0 m0 d0) = canonical_date y0 m0 d0)
            = (y0 < 10 ^ 9 \<or> m0 < 10 ^ 9 \<or> d0 < 10 ^ 9)"
      using canonical_date_whole [of y0 m0 d0] by blast
    with a show "y0 < 2 ^ 32 \<and> m0 < 2 ^ 32 \<and> d0 < 2 ^ 32
        \<and> (take 31 (canonical_date y0 m0 d0) = canonical_date y0 m0 d0)
            = (y0 < 10 ^ 9 \<or> m0 < 10 ^ 9 \<or> d0 < 10 ^ 9)" by blast
  qed
  then show ?thesis
    using rcsdate2str_spec [of v w] spec_rcs_date_iff [of u k] by blast
qed

theorem rcsdate2str_result_witness:
  "rcsdate2str (Some ''$Date: 2021/03/05 10:11:12 $'') world0
     = (Some Rcsdate2str_buf, world0\<lparr>rcsdate2str_buf := ''2021-03-05''\<rparr>)
   \<and> rcsdate2str (Some ''$Date:'') world0
     = (None, world0\<lparr>stderr := [''malformed RCS date'']\<rparr>)
   \<and> rcsdate2str (Some ''$Date: 2021/03/05 10:11 $'') world0
     = (None, world0\<lparr>stderr := [''malformed RCS date'']\<rparr>)
   \<and> rcsdate2str (Some ''$Date: 2021/03/0510:11:12'') world0
     = (None, world0\<lparr>stderr := [''malformed RCS date'']\<rparr>)
   \<and> rcsdate2str (Some ''0123456 2021/ 3/ 5 10: 11: 12'') world0
     = (Some Rcsdate2str_buf, world0\<lparr>rcsdate2str_buf := ''2021-03-05''\<rparr>)
   \<and> rcsdate2str (Some ''$Date: 2021/03/05+10:+11:+12'') world0
     = (Some Rcsdate2str_buf, world0\<lparr>rcsdate2str_buf := ''2021-03-05''\<rparr>)
   \<and> rcsdate2str (Some ''$Date: 4294969317/4294967299/4294967301 1:1:1'') world0
     = (Some Rcsdate2str_buf, world0\<lparr>rcsdate2str_buf := ''2021-03-05''\<rparr>)
   \<and> rcs_date_text ''2021/03/05 10:11:12 $'' (2021, 3, 5)
   \<and> take 31 (canonical_date 2021 3 5) = canonical_date 2021 3 5"
  using
    rcsdate2str_result [of "''$Date: 2021/03/05 10:11:12 $''" world0
      "''2021/03/05 10:11:12 $''" "(2021, 3, 5)" 2021 3 5]
    rcsdate2str_result [of "''$Date:''" world0
      "''2021/03/05 10:11:12 $''" "(2021, 3, 5)" 2021 3 5]
    rcsdate2str_result [of "''$Date: 2021/03/05 10:11 $''" world0
      "''2021/03/05 10:11:12 $''" "(2021, 3, 5)" 2021 3 5]
    rcsdate2str_result [of "''$Date: 2021/03/0510:11:12''" world0
      "''2021/03/05 10:11:12 $''" "(2021, 3, 5)" 2021 3 5]
    rcsdate2str_result [of "''0123456 2021/ 3/ 5 10: 11: 12''" world0
      "''2021/03/05 10:11:12 $''" "(2021, 3, 5)" 2021 3 5]
    rcsdate2str_result [of "''$Date: 2021/03/05+10:+11:+12''" world0
      "''2021/03/05 10:11:12 $''" "(2021, 3, 5)" 2021 3 5]
    rcsdate2str_result [of "''$Date: 4294969317/4294967299/4294967301 1:1:1''" world0
      "''2021/03/05 10:11:12 $''" "(2021, 3, 5)" 2021 3 5]
  by (simp add: spec_eval canonical_eval world0_def)

text \<open>C6 as the claim states it fails on three counts. Three numbers of ten digits give a
  string that lacks the last digit of the day. Numbers of \<open>2^32\<close> or more are formatted as
  their remainders modulo \<open>2^32\<close>. And a text that has not the shape
  \<open>year/month/day hour:minute:second\<close>, with signs and nothing between day and hour, is
  accepted.\<close>

theorem rcsdate2str_not_claimed:
  "rcsdate2str (Some ''$Date: 4000000000/4000000000/4000000000 10:11:12 $'') world0
     = (Some Rcsdate2str_buf,
        world0\<lparr>rcsdate2str_buf := ''4000000000-4000000000-400000000''\<rparr>)
   \<and> claimed_normalizeRcsDate ''$Date: 4000000000/4000000000/4000000000 10:11:12 $''
     = Some ''4000000000-4000000000-4000000000''
   \<and> rcsdate2str (Some ''$Date: 4294969317/4294967299/4294967301 1:1:1'') world0
     = (Some Rcsdate2str_buf, world0\<lparr>rcsdate2str_buf := ''2021-03-05''\<rparr>)
   \<and> claimed_normalizeRcsDate ''$Date: 4294969317/4294967299/4294967301 1:1:1''
     = Some ''4294969317-4294967299-4294967301''
   \<and> rcsdate2str (Some ''$Date: 2021/03/05+10:+11:+12'') world0
     = (Some Rcsdate2str_buf, world0\<lparr>rcsdate2str_buf := ''2021-03-05''\<rparr>)
   \<and> claimed_normalizeRcsDate ''$Date: 2021/03/05+10:+11:+12'' = None"
  by (simp add: rcsdate2str_spec spec_eval claimed_eval canonical_eval)

text \<open>
  C10, as the code has it: both normalizations match a prefix and validate nothing. A
  string that starts with three integer texts (white space, a sign, digits) with \<open>/\<close> or
  with \<open>-\<close> after the first and after the second is accepted by \<open>normalizeDate\<close> whatever
  follows the digits of the third; a string of 7 characters, three integer texts with \<open>/\<close>
  between them and three more with \<open>:\<close> between them, the fourth beginning with white
  space or a sign, is accepted by \<open>normalizeRcsDate\<close> whatever follows the digits of the
  sixth. The result is the first 31 characters of the canonical date of the three values
  stored, which are below \<open>2^32\<close>, in or out of calendar range; the 31 characters are the
  whole canonical date unless the three values all have ten digits. In particular the
  date written from three numbers below \<open>2^64\<close> is read back as the canonical date of
  their remainders modulo \<open>2^32\<close>: of the numbers themselves when they are below \<open>2^32\<close>.
  And a string that is accepted stays accepted when any text is appended to it.
\<close>

theorem date_prefix_match:
  assumes "number_text n1" and "number_text n2" and "number_text n3"
    and "no_digit_next rest"
  shows "(sep = CHR ''/'' \<or> sep = CHR ''-'' \<longrightarrow>
        normalizeDate (text_of n1 @ sep # text_of n2 @ sep # text_of n3 @ rest)
          = Some (take 31 (canonical_date (value_of n1) (value_of n2) (value_of n3))))
   \<and> (number_text n4 \<and> number_text n5 \<and> number_text n6 \<and> no_digit_next (text_of n4)
          \<and> length pre = 7 \<longrightarrow>
        normalizeRcsDate
            (pre @ text_of n1 @ CHR ''/'' # text_of n2 @ CHR ''/'' # text_of n3
               @ text_of n4 @ CHR '':'' # text_of n5 @ CHR '':'' # text_of n6 @ rest)
          = Some (take 31 (canonical_date (value_of n1) (value_of n2) (value_of n3))))
   \<and> value_of n1 < 2 ^ 32 \<and> value_of n2 < 2 ^ 32 \<and> value_of n3 < 2 ^ 32
   \<and> (take 31 (canonical_date (value_of n1) (value_of n2) (value_of n3))
          = canonical_date (value_of n1) (value_of n2) (value_of n3))
       = (value_of n1 < 10 ^ 9 \<or> value_of n2 < 10 ^ 9 \<or> value_of n3 < 10 ^ 9)
   \<and> (y < 2 ^ 64 \<and> m < 2 ^ 64 \<and> d < 2 ^ 64 \<and> (sep = CHR ''/'' \<or> sep = CHR ''-'') \<longrightarrow>
        normalizeDate (dec y @ sep # dec m @ sep # dec d @ rest)
          = Some (take 31 (canonical_date (y mod 2 ^ 32) (m mod 2 ^ 32) (d mod 2 ^ 32))))
   \<and> (normalizeDate v \<noteq> None \<longrightarrow> normalizeDate (v @ t) \<noteq> None)
   \<and> (normalizeRcsDate v \<noteq> None \<longrightarrow> normalizeRcsDate (v @ t) \<noteq> None)"
proof -
  have a: "sep = CHR ''/'' \<or> sep = CHR ''-'' \<longrightarrow>
        normalizeDate (text_of n1 @ sep # text_of n2 @ sep # text_of n3 @ rest)
          = Some (take 31 (canonical_date (value_of n1) (value_of n2) (value_of n3)))"
    using normalizeDate_text [of n1 n2 n3 rest sep] assms by blast
  have b: "number_text n4 \<and> number_text n5 \<and> number_text n6 \<and> no_digit_next (text_of n4)
          \<and> length pre = 7 \<longrightarrow>
        normalizeRcsDate
            (pre @ text_of n1 @ CHR ''/'' # text_of n2 @ CHR ''/'' # text_of n3
               @ text_of n4 @ CHR '':'' # text_of n5 @ CHR '':'' # text_of n6 @ rest)
          = Some (take 31 (canonical_date (value_of n1) (value_of n2) (value_of n3)))"
    using normalizeRcsDate_text [of n1 n2 n3 n4 n5 n6 rest pre] assms by blast
  have c: "value_of n1 < 2 ^ 32" "value_of n2 < 2 ^ 32" "value_of n3 < 2 ^ 32"
    by (rule value_of_less)+
  have d: "(take 31 (canonical_date (value_of n1) (value_of n2) (value_of n3))
          = canonical_date (value_of n1) (value_of n2) (value_of n3))
       = (value_of n1 < 10 ^ 9 \<or> value_of n2 < 10 ^ 9 \<or> value_of n3 < 10 ^ 9)"
    using c by (rule canonical_date_whole)
  have e: "y < 2 ^ 64 \<and> m < 2 ^ 64 \<and> d < 2 ^ 64 \<and> (sep = CHR ''/'' \<or> sep = CHR ''-'') \<longrightarrow>
        normalizeDate (dec y @ sep # dec m @ sep # dec d @ rest)
          = Some (take 31 (canonical_date (y mod 2 ^ 32) (m mod 2 ^ 32) (d mod 2 ^ 32)))"
    using normalizeDate_dec_mod [of y m d rest sep] assms(4) by blast
  show ?thesis
    using a b c d e normalizeDate_append [of v t] normalizeRcsDate_append [of v t] by blast
qed

theorem date_prefix_match_witness:
  "number_text ([], [], ''2021'') \<and> number_text ([], [], ''3'') \<and> number_text ([], [], ''5'')
   \<and> number_text ([], [], ''99'') \<and> number_text ([], [], ''4294967297'')
   \<and> number_text ('' '', [], ''3'') \<and> number_text ('' '', ''+'', ''5'')
   \<and> number_text ([], ''-'', ''1'') \<and> number_text ([], [], ''18446744073709551616'')
   \<and> number_text ('' '', [], ''10'') \<and> number_text ([], [], ''11'')
   \<and> number_text ([], [], ''12'')
   \<and> no_digit_next '' trailing junk'' \<and> no_digit_next []
   \<and> no_digit_next (text_of ('' '', [], ''10''))
   \<and> length ''$Date: '' = 7
   \<and> normalizeDate ''2021/3/5'' = Some ''2021-03-05''
   \<and> normalizeDate ''2021/3/5 trailing junk'' = Some ''2021-03-05''
   \<and> normalizeDate ''2021/99/99'' = Some ''2021-99-99''
   \<and> normalizeDate ''2021-99-99 trailing junk'' = Some ''2021-99-99''
   \<and> normalizeDate ''2021/4294967297/5'' = Some ''2021-01-05''
   \<and> normalizeDate ''2021/ 3/ +5 trailing junk'' = Some ''2021-03-05''
   \<and> normalizeDate ''2021/-1/5'' = Some ''2021-4294967295-05''
   \<and> normalizeDate ''2021/18446744073709551616/5'' = Some ''2021-4294967295-05''
   \<and> normalizeRcsDate ''$Date: 2021/99/99 10:11:12 trailing junk'' = Some ''2021-99-99''
   \<and> dec 2021 @ CHR ''/'' # dec 99 @ CHR ''/'' # dec 99 @ [] = ''2021/99/99''
   \<and> dec 2021 @ CHR ''/'' # dec 4294967297 @ CHR ''/'' # dec 5 @ [] = ''2021/4294967297/5''"
  using
    date_prefix_match [of "([], [], ''2021'')" "([], [], ''3'')" "([], [], ''5'')" "[]"
      "CHR ''/''" "('' '', [], ''10'')" "([], [], ''11'')" "([], [], ''12'')" "''$Date: ''"
      2021 99 99 "''2021/3/5''" "'' trailing junk''"]
    date_prefix_match [of "([], [], ''2021'')" "([], [], ''3'')" "([], [], ''5'')"
      "'' trailing junk''"
      "CHR ''/''" "('' '', [], ''10'')" "([], [], ''11'')" "([], [], ''12'')" "''$Date: ''"
      2021 4294967297 5 "''2021/3/5''" "'' trailing junk''"]
    date_prefix_match [of "([], [], ''2021'')" "([], [], ''99'')" "([], [], ''99'')" "[]"
      "CHR ''/''" "('' '', [], ''10'')" "([], [], ''11'')" "([], [], ''12'')" "''$Date: ''"
      2021 99 99 "''2021/3/5''" "'' trailing junk''"]
    date_prefix_match [of "([], [], ''2021'')" "([], [], ''99'')" "([], [], ''99'')"
      "'' trailing junk''"
      "CHR ''-''" "('' '', [], ''10'')" "([], [], ''11'')" "([], [], ''12'')" "''$Date: ''"
      2021 99 99 "''2021/3/5''" "'' trailing junk''"]
    date_prefix_match [of "([], [], ''2021'')" "([], [], ''4294967297'')" "([], [], ''5'')" "[]"
      "CHR ''/''" "('' '', [], ''10'')" "([], [], ''11'')" "([], [], ''12'')" "''$Date: ''"
      2021 99 99 "''2021/3/5''" "'' trailing junk''"]
    date_prefix_match [of "([], [], ''2021'')" "('' '', [], ''3'')" "('' '', ''+'', ''5'')"
      "'' trailing junk''"
      "CHR ''/''" "('' '', [], ''10'')" "([], [], ''11'')" "([], [], ''12'')" "''$Date: ''"
      2021 99 99 "''2021/3/5''" "'' trailing junk''"]
    date_prefix_match [of "([], [], ''2021'')" "([], ''-'', ''1'')" "([], [], ''5'')" "[]"
      "CHR ''/''" "('' '', [], ''10'')" "([], [], ''11'')" "([], [], ''12'')" "''$Date: ''"
      2021 99 99 "''2021/3/5''" "'' trailing junk''"]
    date_prefix_match [of "([], [], ''2021'')" "([], [], ''18446744073709551616'')"
      "([], [], ''5'')" "[]"
      "CHR ''/''" "('' '', [], ''10'')" "([], [], ''11'')" "([], [], ''12'')" "''$Date: ''"
      2021 99 99 "''2021/3/5''" "'' trailing junk''"]
  by (simp add: number_text_def text_of_def value_of_def no_digit_next_def spec_white_def
      spec_digit_def spec_decimal_def spec_stored_def canonical_eval)

text \<open>C10 as the claim states it fails on two counts. A month out of calendar range is not
  always formatted as it is: 4294967297 is formatted as 01. And where the 31 characters cut
  the date, the day read is 4000000000 and the day written is 400000000.\<close>

theorem date_prefix_match_not_as_is:
  "normalizeDate ''2021/4294967297/5'' = Some ''2021-01-05''
   \<and> claimed_normalizeDate ''2021/4294967297/5'' = Some ''2021-4294967297-05''
   \<and> normalizeDate ''4000000000-4000000000-4000000000 trailing junk''
     = Some ''4000000000-4000000000-400000000''
   \<and> claimed_normalizeDate ''4000000000-4000000000-4000000000 trailing junk''
     = Some ''4000000000-4000000000-4000000000''"
  by (simp add: normalizeDate_spec spec_eval claimed_eval canonical_eval)


section \<open>The metadata in the standalone wrapper\<close>

text \<open>
  C1: \<open>lowdown_standalone_open\<close> with options present writes its output from a title, an
  author and a date that one scan of the metadata, in stored order, determines. The title
  is the value of the last entry with key \<open>title\<close>, or \<open>Untitled article\<close>; the author is
  the value of the last entry with key \<open>author\<close>, or none. The date is decided by the last
  entry whose key is \<open>rcsdate\<close> or \<open>date\<close> alone: it is the normalization of that entry's
  value (by \<open>rcsdate2str\<close> or \<open>date2str\<close>, after its key), whatever earlier entries
  gave; when that normalization fails, or there is no such entry, it is the local date of
  today as \<open>%F\<close> formats it, the year followed by month and day of two digits.
\<close>

theorem open_last_wins:
  "lowdown_standalone_open (Some os) m now w
     = Inr (open_output (type os) (fst (open_vars m now w)), snd (open_vars m now w))
   \<and> fst (open_vars m now w) =
       (case last_entry (\<lambda>e. key e = ''title'') m of
          None \<Rightarrow> ''Untitled article''
        | Some e \<Rightarrow> val e,
        map_option val (last_entry (\<lambda>e. key e = ''author'') m),
        case last_entry date_entry m of
          None \<Rightarrow> strftime_F now
        | Some e \<Rightarrow> (case normalize_entry e of None \<Rightarrow> strftime_F now | Some s \<Rightarrow> s))
   \<and> (0 \<le> 1900 + tm_year now \<longrightarrow>
        strftime_F now
          = canonical_date (nat (1900 + tm_year now)) (nat (tm_mon now + 1)) (nat (tm_mday now)))"
proof -
  have "lowdown_standalone_open (Some os) m now w
     = Inr (open_output (type os) (fst (open_vars m now w)), snd (open_vars m now w))"
    by (cases "open_vars m now w") (simp add: lowdown_standalone_open_def)
  then show ?thesis
    using open_vars_eq [of m now w] strftime_F_canonical [of now] by blast
qed

theorem open_last_wins_witness:
  "fst (open_vars
       [\<lparr>key = ''date'', val = ''2020-01-01''\<rparr>,
        \<lparr>key = ''rcsdate'', val = ''$Date: 2021/02/02 00:00:00$''\<rparr>]
       \<lparr>tm_year = 126, tm_mon = 9, tm_mday = 30\<rparr> world0)
     = (''Untitled article'', None, ''2021-02-02'')
   \<and> fst (open_vars
       [\<lparr>key = ''rcsdate'', val = ''$Date: 2021/02/02 00:00:00$''\<rparr>,
        \<lparr>key = ''date'', val = ''2020-01-01''\<rparr>]
       \<lparr>tm_year = 126, tm_mon = 9, tm_mday = 30\<rparr> world0)
     = (''Untitled article'', None, ''2020-01-01'')
   \<and> fst (open_vars
       [\<lparr>key = ''title'', val = ''One''\<rparr>, \<lparr>key = ''date'', val = ''2020-01-01''\<rparr>,
        \<lparr>key = ''author'', val = ''Ann''\<rparr>, \<lparr>key = ''title'', val = ''Two''\<rparr>,
        \<lparr>key = ''date'', val = ''soon''\<rparr>, \<lparr>key = ''author'', val = ''Bob''\<rparr>]
       \<lparr>tm_year = 126, tm_mon = 9, tm_mday = 30\<rparr> world0)
     = (''Two'', Some ''Bob'', ''2026-10-30'')
   \<and> (0::int) \<le> 1900 + 126
   \<and> strftime_F \<lparr>tm_year = 126, tm_mon = 9, tm_mday = 30\<rparr> = ''2026-10-30''"
  using
    open_last_wins [of "\<lparr>type = LOWDOWN_MAN, feat = 0, oflags = 0\<rparr>"
      "[\<lparr>key = ''date'', val = ''2020-01-01''\<rparr>,
        \<lparr>key = ''rcsdate'', val = ''$Date: 2021/02/02 00:00:00$''\<rparr>]"
      "\<lparr>tm_year = 126, tm_mon = 9, tm_mday = 30\<rparr>" world0]
    open_last_wins [of "\<lparr>type = LOWDOWN_MAN, feat = 0, oflags = 0\<rparr>"
      "[\<lparr>key = ''rcsdate'', val = ''$Date: 2021/02/02 00:00:00$''\<rparr>,
        \<lparr>key = ''date'', val = ''2020-01-01''\<rparr>]"
      "\<lparr>tm_year = 126, tm_mon = 9, tm_mday = 30\<rparr>" world0]
    open_last_wins [of "\<lparr>type = LOWDOWN_NROFF, feat = 0, oflags = 0\<rparr>"
      "[\<lparr>key = ''title'', val = ''One''\<rparr>, \<lparr>key = ''date'', val = ''2020-01-01''\<rparr>,
        \<lparr>key = ''author'', val = ''Ann''\<rparr>, \<lparr>key = ''title'', val = ''Two''\<rparr>,
        \<lparr>key = ''date'', val = ''soon''\<rparr>, \<lparr>key = ''author'', val = ''Bob''\<rparr>]"
      "\<lparr>tm_year = 126, tm_mon = 9, tm_mday = 30\<rparr>" world0]
  by (simp add: last_entry_def date_entry_def normalize_eval grammar_eval canonical_eval)

end
